theory Spec2Isabelle
  imports Main "HOL-Library.Word" "HOL-Library.Monad_Syntax"
begin

unbundle bit_operations_syntax

section \<open>PICclock: the hybrid NCO/software clock generator (main.c)\<close>

text \<open>
  The firmware is one sequential program: \<open>main\<close> configures the ports, the ADC and the
  NCO, then runs an endless control loop.  The model is a shallow embedding of that
  program.  The special function registers the control loop writes and the local
  variables of \<open>main\<close> are the fields of one record; every C function becomes a function
  on that record.  The input pins and the ADC are read from a list of samples: each read
  of a port bit or of the ADC consumes the next sample, and a run that needs a sample
  when none is left stops with \<open>None\<close>.  Every write to one of the three registers that
  decide what the output pin RB6 shows (RB6PPS, NCO1CON, LATB6) and every delay is
  appended to an event log, so that properties of every instant of a run are properties
  of every element of the log.
\<close>

subsection \<open>Data\<close>

type_synonym uint8_t = "8 word"
type_synonym uint32_t = "32 word"

text \<open>One sample of the inputs: the three switch pins of PORTC (\<open>True\<close> is a high
  level; the switches are active low) and the upper eight bits of an ADC conversion.\<close>

record inputs =
  RC6 :: bool
  RC4 :: bool
  RC3 :: bool
  ADRESH :: uint8_t

text \<open>\<open>Pin pps con lat\<close> records the values of RB6PPS, NCO1CON and LATB6 right after a
  write to one of them; \<open>Delay n\<close> records a busy wait of \<open>n\<close> microseconds.\<close>

datatype event = Pin uint8_t uint8_t bool | Delay int

record mcu =
  RB6PPS :: uint8_t
  NCO1CON :: uint8_t
  NCO1CLK :: uint8_t
  NCO1INCU :: uint8_t
  NCO1INCH :: uint8_t
  NCO1INCL :: uint8_t
  NCO1ACCU :: uint8_t
  NCO1ACCH :: uint8_t
  NCO1ACCL :: uint8_t
  LATB6 :: bool
  LATC5 :: bool
  last_adc :: uint8_t
  freq_entry :: uint32_t
  software_mode :: uint8_t
  half_period :: uint32_t
  running :: uint8_t
  halted :: uint8_t
  ins :: "inputs list"
  trace :: "event list"

subsection \<open>Register writes, delays and reads\<close>

definition write_RB6PPS :: "uint8_t \<Rightarrow> mcu \<Rightarrow> mcu" where
  "write_RB6PPS v s = s\<lparr>RB6PPS := v, trace := trace s @ [Pin v (NCO1CON s) (LATB6 s)]\<rparr>"

definition write_NCO1CON :: "uint8_t \<Rightarrow> mcu \<Rightarrow> mcu" where
  "write_NCO1CON v s = s\<lparr>NCO1CON := v, trace := trace s @ [Pin (RB6PPS s) v (LATB6 s)]\<rparr>"

definition write_LATB6 :: "bool \<Rightarrow> mcu \<Rightarrow> mcu" where
  "write_LATB6 v s = s\<lparr>LATB6 := v, trace := trace s @ [Pin (RB6PPS s) (NCO1CON s) v]\<rparr>"

definition delay_us :: "int \<Rightarrow> mcu \<Rightarrow> mcu" where
  "delay_us n s = s\<lparr>trace := trace s @ [Delay n]\<rparr>"

definition delay_ms :: "int \<Rightarrow> mcu \<Rightarrow> mcu" where
  "delay_ms n s = delay_us (1000 * n) s"

text \<open>Reading a port bit or the ADC result takes the next sample.\<close>

definition read_port :: "(inputs \<Rightarrow> 'a) \<Rightarrow> mcu \<Rightarrow> ('a \<times> mcu) option" where
  "read_port f s = (case ins s of [] \<Rightarrow> None | x # xs \<Rightarrow> Some (f x, s\<lparr>ins := xs\<rparr>))"

text \<open>\<open>adc_read\<close>: start a conversion, wait for it to finish, return ADRESH.  The wait for
  the hardware to clear GO/DONE is taken to end; the result is the next sample.\<close>

definition adc_read :: "mcu \<Rightarrow> (uint8_t \<times> mcu) option" where
  "adc_read s = read_port ADRESH s"

subsection \<open>The frequency table encoding\<close>

text \<open>Modelled from the spec: the header freq_table.h (the array \<open>freq_table\<close> and the
  macros \<open>IS_SOFTWARE_MODE\<close> and \<open>GET_FREQ_VALUE\<close>) is not among the sources.  The firmware
  README gives the encoding: bit 31 set means software mode with the half period in bits
  0 to 23; bit 31 clear means NCO mode with the increment in bits 0 to 19.  The table
  itself is a parameter \<open>ft\<close> of every function that indexes it.\<close>

definition IS_SOFTWARE_MODE :: "uint32_t \<Rightarrow> bool" where
  "IS_SOFTWARE_MODE e = (e AND 0x80000000 \<noteq> 0)"

definition GET_FREQ_VALUE :: "uint32_t \<Rightarrow> uint32_t" where
  "GET_FREQ_VALUE e = e AND 0x00FFFFFF"

subsection \<open>The NCO driver\<close>

text \<open>\<open>nco_init\<close> also makes RB6 a digital output (TRISB6, ANSB6); the loop never reads
  or writes those bits and they are left out.\<close>

definition nco_init :: "mcu \<Rightarrow> mcu" where
  "nco_init s =
     write_NCO1CON 0x80
       ((write_NCO1CON 0x00 (write_RB6PPS 0x1D s))
          \<lparr>NCO1CLK := 0x01, NCO1INCU := 0x00, NCO1INCH := 0x00, NCO1INCL := 0x01,
           NCO1ACCU := 0x00, NCO1ACCH := 0x00, NCO1ACCL := 0x00\<rparr>)"

definition nco_set_increment :: "uint32_t \<Rightarrow> mcu \<Rightarrow> mcu" where
  "nco_set_increment inc s =
     write_NCO1CON 0x80
       ((write_NCO1CON 0x00 s)
          \<lparr>NCO1INCL := ucast (inc AND 0xFF),
           NCO1INCH := ucast (drop_bit 8 inc AND 0xFF),
           NCO1INCU := ucast (drop_bit 16 inc AND 0x0F)\<rparr>)"

definition nco_stop :: "mcu \<Rightarrow> mcu" where
  "nco_stop s = write_LATB6 False (write_NCO1CON 0x00 s)"

definition nco_disconnect :: "mcu \<Rightarrow> mcu" where
  "nco_disconnect s = write_LATB6 False (write_RB6PPS 0x00 (write_NCO1CON 0x00 s))"

definition nco_connect :: "mcu \<Rightarrow> mcu" where
  "nco_connect s = write_NCO1CON 0x80 (write_RB6PPS 0x1D s)"

subsection \<open>Step mode helpers\<close>

definition output_step_pulse :: "mcu \<Rightarrow> mcu" where
  "output_step_pulse s = write_LATB6 False (delay_ms 10 (write_LATB6 True s))"

text \<open>\<open>STEP_BTN == 0\<close> is a low level on RC4.\<close>

definition button_pressed :: "mcu \<Rightarrow> (uint8_t \<times> mcu) option" where
  "button_pressed s = do {
     (b, s1) \<leftarrow> read_port RC4 s;
     if \<not> b then do {
       (b2, s2) \<leftarrow> read_port RC4 (delay_ms 20 s1);
       if \<not> b2 then Some (1, s2) else Some (0, s2)
     } else Some (0, s1)
   }"

text \<open>\<open>while (STEP_BTN == 0);\<close> reads the button until it is high.  It returns only when
  a high sample arrives.\<close>

fun spin_while_pressed :: "inputs list \<Rightarrow> inputs list option" where
  "spin_while_pressed [] = None"
| "spin_while_pressed (x # xs) = (if \<not> RC4 x then spin_while_pressed xs else Some xs)"

definition wait_button_release :: "mcu \<Rightarrow> mcu option" where
  "wait_button_release s =
     (case spin_while_pressed (ins s) of
        None \<Rightarrow> None
      | Some r \<Rightarrow> Some (delay_ms 20 (s\<lparr>ins := r\<rparr>)))"

subsection \<open>The control loop of main\<close>

text \<open>\<open>(HALT_SEL ? 0 : 2) | (STEP_SEL ? 0 : 1)\<close>, the two pins read left to right.\<close>

definition read_mode :: "mcu \<Rightarrow> (uint8_t \<times> mcu) option" where
  "read_mode s = do {
     (h, s1) \<leftarrow> read_port RC6 s;
     (p, s2) \<leftarrow> read_port RC3 s1;
     Some ((if h then 0 else 2) OR (if p then 0 else 1), s2)
   }"

text \<open>\<open>adc_val > last_adc + 1 || adc_val < last_adc - 1\<close>: both operands are promoted to
  \<open>int\<close> before the addition and the subtraction, so neither wraps at 0 or 255.\<close>

definition adc_moved :: "uint8_t \<Rightarrow> uint8_t \<Rightarrow> bool" where
  "adc_moved adc_val last_val \<longleftrightarrow>
     uint adc_val > uint last_val + 1 \<or> uint adc_val < uint last_val - 1"

text \<open>The halt branch: \<open>if (mode & 2) { ... continue; }\<close>.\<close>

definition halt_mode :: "mcu \<Rightarrow> mcu" where
  "halt_mode s =
     delay_ms 50
       (if halted s = 0
        then (if software_mode s \<noteq> 0 then write_LATB6 False s else nco_stop s)
               \<lparr>LATC5 := False, halted := 1, running := 0\<rparr>
        else s)"

text \<open>The step branch: \<open>if (mode & 1) { ... continue; }\<close>.\<close>

definition step_mode :: "mcu \<Rightarrow> mcu option" where
  "step_mode s = do {
     let s1 = (if running s \<noteq> 0 \<or> halted s = 0
               then (write_LATB6 False (if software_mode s = 0 then nco_disconnect s else s))
                      \<lparr>running := 0, halted := 1\<rparr>
               else s);
     let s2 = s1\<lparr>LATC5 := True\<rparr>;
     (b, s3) \<leftarrow> button_pressed s2;
     s4 \<leftarrow> (if b \<noteq> 0 then wait_button_release (output_step_pulse s3) else Some s3);
     Some (delay_ms 10 s4)
   }"

text \<open>The resume block: \<open>if (halted) { ... }\<close>.\<close>

definition resume :: "(uint8_t \<Rightarrow> uint32_t) \<Rightarrow> mcu \<Rightarrow> mcu option" where
  "resume ft s = do {
     (a, s1) \<leftarrow> adc_read s;
     let s2 = s1\<lparr>last_adc := a, freq_entry := ft a,
                 software_mode := (if IS_SOFTWARE_MODE (ft a) then 1 else 0)\<rparr>;
     let s3 = (if software_mode s2 \<noteq> 0
               then s2\<lparr>half_period := GET_FREQ_VALUE (freq_entry s2)\<rparr>
               else nco_set_increment (GET_FREQ_VALUE (freq_entry s2)) (nco_connect s2));
     Some (s3\<lparr>LATC5 := True, running := 1, halted := 0\<rparr>)
   }"

text \<open>The re-check inside the high phase, made when \<open>(i & 0x3FF) == 0\<close>.  The result
  says whether the loop is left (\<open>break\<close>).\<close>

definition high_check :: "mcu \<Rightarrow> (bool \<times> mcu) option" where
  "high_check s = do {
     (m, s1) \<leftarrow> read_mode s;
     if m \<noteq> 0 then Some (True, write_LATB6 False s1) else Some (False, s1)
   }"

function high_loop :: "uint32_t \<Rightarrow> uint32_t \<Rightarrow> mcu \<Rightarrow> mcu option" where
  "high_loop i delay_10us s =
     (if i < delay_10us then
        (let s1 = delay_us 10 s in
         if i AND 0x3FF = 0 then
           (case high_check s1 of
              None \<Rightarrow> None
            | Some (brk, s2) \<Rightarrow> if brk then Some s2 else high_loop (i + 1) delay_10us s2)
         else high_loop (i + 1) delay_10us s1)
      else Some s)"
  by pat_completeness auto
termination
proof (relation "measure (\<lambda>(i, d, s). unat d - unat i)")
  fix i d :: uint32_t
  assume "i < d"
  then have "unat (i + 1) = Suc (unat i)"
    using unsigned_less [of d, where 'a = nat]
    by (simp add: word_less_nat_alt unat_word_ariths)
  with \<open>i < d\<close> have "unat d - unat (i + 1) < unat d - unat i"
    by (simp add: word_less_nat_alt)
  then show "((i + 1, d, s2), i, d, s) \<in> measure (\<lambda>(i, d, s). unat d - unat i)"
    for s s2 :: mcu
    by simp
  then show "((i + 1, d, s2), i, d, s) \<in> measure (\<lambda>(i, d, s). unat d - unat i)"
    for s s2 :: mcu
    by simp
qed simp

text \<open>The re-check inside the low phase.  The result says whether the loop is left and
  gives the value of the block variable \<open>delay_10us\<close>, which the check may change.\<close>

definition low_check ::
  "(uint8_t \<Rightarrow> uint32_t) \<Rightarrow> uint32_t \<Rightarrow> mcu \<Rightarrow> (bool \<times> uint32_t \<times> mcu) option" where
  "low_check ft delay_10us s = do {
     (m, s1) \<leftarrow> read_mode s;
     if m \<noteq> 0 then Some (True, delay_10us, s1)
     else do {
       (adc_val, s2) \<leftarrow> adc_read s1;
       if adc_val \<noteq> last_adc s2 then
         if adc_moved adc_val (last_adc s2) then
           (let s3 = s2\<lparr>last_adc := adc_val, freq_entry := ft adc_val\<rparr> in
            if \<not> IS_SOFTWARE_MODE (freq_entry s3) then
              Some (True, delay_10us,
                    nco_set_increment (GET_FREQ_VALUE (freq_entry s3))
                      (nco_connect (s3\<lparr>software_mode := 0\<rparr>)))
            else
              (let s4 = s3\<lparr>half_period := GET_FREQ_VALUE (freq_entry s3)\<rparr> in
               Some (False, half_period s4 div 240, s4)))
         else Some (False, delay_10us, s2)
       else Some (False, delay_10us, s2)
     }
   }"

function low_loop ::
  "(uint8_t \<Rightarrow> uint32_t) \<Rightarrow> uint32_t \<Rightarrow> uint32_t \<Rightarrow> mcu \<Rightarrow> mcu option" where
  "low_loop ft i delay_10us s =
     (if i < delay_10us then
        (let s1 = delay_us 10 s in
         if i AND 0x3FF = 0 then
           (case low_check ft delay_10us s1 of
              None \<Rightarrow> None
            | Some (brk, d, s2) \<Rightarrow> if brk then Some s2 else low_loop ft (i + 1) d s2)
         else low_loop ft (i + 1) delay_10us s1)
      else Some s)"
  by pat_completeness auto
termination
proof (relation "measure (\<lambda>(ft, i, d, s). 2 ^ 32 - unat i)")
  fix i d :: uint32_t
  assume "i < d"
  then have "unat (i + 1) = Suc (unat i)"
    using unsigned_less [of d, where 'a = nat]
    by (simp add: word_less_nat_alt unat_word_ariths)
  moreover have "unat i < 2 ^ 32"
    using unsigned_less [of i, where 'a = nat] by simp
  ultimately have "(2::nat) ^ 32 - unat (i + 1) < 2 ^ 32 - unat i"
    by simp
  then show "((ft, i + 1, d2, s2), ft, i, d, s) \<in> measure (\<lambda>(ft, i, d, s). 2 ^ 32 - unat i)"
    for s s2 :: mcu and d2 :: uint32_t and ft :: "uint8_t \<Rightarrow> uint32_t"
    by simp
  then show "((ft, i + 1, d, s2), ft, i, d, s) \<in> measure (\<lambda>(ft, i, d, s). 2 ^ 32 - unat i)"
    for s s2 :: mcu and ft :: "uint8_t \<Rightarrow> uint32_t"
    by simp
qed simp

text \<open>The software generator: one high phase and one low phase.\<close>

definition software_cycle :: "(uint8_t \<Rightarrow> uint32_t) \<Rightarrow> mcu \<Rightarrow> mcu option" where
  "software_cycle ft s = do {
     let s1 = write_LATB6 True s;
     let delay_10us = half_period s1 div 240;
     s2 \<leftarrow> high_loop 0 delay_10us s1;
     let s3 = write_LATB6 False s2;
     low_loop ft 0 delay_10us s3
   }"

text \<open>NCO mode: poll the ADC, then wait 20 ms.\<close>

definition nco_poll :: "(uint8_t \<Rightarrow> uint32_t) \<Rightarrow> mcu \<Rightarrow> mcu option" where
  "nco_poll ft s = do {
     (adc_val, s1) \<leftarrow> adc_read s;
     let s2 =
       (if adc_val \<noteq> last_adc s1 then
          if adc_moved adc_val (last_adc s1) then
            (let s3 = s1\<lparr>last_adc := adc_val, freq_entry := ft adc_val\<rparr> in
             if IS_SOFTWARE_MODE (freq_entry s3) then
               (nco_disconnect (s3\<lparr>software_mode := 1\<rparr>))
                 \<lparr>half_period := GET_FREQ_VALUE (freq_entry s3)\<rparr>
             else nco_set_increment (GET_FREQ_VALUE (freq_entry s3)) s3)
          else s1
        else s1);
     Some (delay_ms 20 s2)
   }"

text \<open>One pass through the body of \<open>while (1)\<close>: the mode switches are read, then
  \<open>dispatch\<close> is the rest of the body for the value of \<open>mode\<close>.\<close>

definition dispatch :: "(uint8_t \<Rightarrow> uint32_t) \<Rightarrow> uint8_t \<Rightarrow> mcu \<Rightarrow> mcu option" where
  "dispatch ft mode s1 =
     (if mode AND 2 \<noteq> 0 then Some (halt_mode s1)
      else if mode AND 1 \<noteq> 0 then step_mode s1
      else do {
        s2 \<leftarrow> (if halted s1 \<noteq> 0 then resume ft s1 else Some s1);
        if software_mode s2 \<noteq> 0 then software_cycle ft s2 else nco_poll ft s2
      })"

definition iteration :: "(uint8_t \<Rightarrow> uint32_t) \<Rightarrow> mcu \<Rightarrow> mcu option" where
  "iteration ft s = do {
     (mode, s1) \<leftarrow> read_mode s;
     dispatch ft mode s1
   }"

text \<open>\<open>main\<close> up to the loop: port set-up (\<open>LATB = 0x00\<close> clears LATB6, \<open>LATC = 0x00\<close>
  clears the LED), the start-up blink, \<open>nco_init\<close>, the first ADC sample and the
  first configuration.  The direction, analog-select and pull-up registers and
  \<open>adc_init\<close> are written once and never read by the loop; they are left out.\<close>

definition startup :: "(uint8_t \<Rightarrow> uint32_t) \<Rightarrow> mcu \<Rightarrow> mcu option" where
  "startup ft s = do {
     let s1 = (write_LATB6 False s)\<lparr>LATC5 := False\<rparr>;
     let s2 = (delay_ms 100 ((delay_ms 100 (s1\<lparr>LATC5 := True\<rparr>))\<lparr>LATC5 := False\<rparr>))
                \<lparr>LATC5 := True\<rparr>;
     let s3 = nco_init s2;
     (a, s4) \<leftarrow> adc_read s3;
     let s5 = s4\<lparr>last_adc := a, freq_entry := ft a,
                 software_mode := (if IS_SOFTWARE_MODE (ft a) then 1 else 0),
                 half_period := 0\<rparr>;
     let s6 = (if software_mode s5 \<noteq> 0
               then (nco_disconnect s5)\<lparr>half_period := GET_FREQ_VALUE (freq_entry s5)\<rparr>
               else nco_set_increment (GET_FREQ_VALUE (freq_entry s5)) s5);
     Some (s6\<lparr>running := 1, halted := 0\<rparr>)
   }"

text \<open>\<open>main\<close> never returns.  \<open>run ft n s\<close> is the state at the head of the loop after
  \<open>n\<close> passes from \<open>s\<close>; \<open>main_upto ft n s\<close> is \<open>main\<close> entered in state \<open>s\<close> and followed
  for \<open>n\<close> passes.\<close>

fun run :: "(uint8_t \<Rightarrow> uint32_t) \<Rightarrow> nat \<Rightarrow> mcu \<Rightarrow> mcu option" where
  "run ft 0 s = Some s"
| "run ft (Suc n) s = (case run ft n s of None \<Rightarrow> None | Some s' \<Rightarrow> iteration ft s')"

definition main_upto :: "(uint8_t \<Rightarrow> uint32_t) \<Rightarrow> nat \<Rightarrow> mcu \<Rightarrow> mcu option" where
  "main_upto ft n s = (case startup ft s of None \<Rightarrow> None | Some s' \<Rightarrow> run ft n s')"

section \<open>Properties\<close>

subsection \<open>Vocabulary\<close>

text \<open>The value of \<open>mode\<close> computed from the sample that answers the read of HALT_SEL
  and the sample that answers the read of STEP_SEL.\<close>

definition mode_bits :: "inputs \<Rightarrow> inputs \<Rightarrow> uint8_t" where
  "mode_bits x y = (if RC6 x then 0 else 2) OR (if RC3 y then 0 else 1)"

text \<open>The two generators never assert together: at an instant where the latch is high
  the NCO is disabled.\<close>

definition exclusive :: "event \<Rightarrow> bool" where
  "exclusive e = (case e of Pin pps con lat \<Rightarrow> \<not> (lat \<and> con \<noteq> 0) | Delay n \<Rightarrow> True)"

text \<open>Both sources of the pin are low: the NCO is disabled and the latch is low.\<close>

definition quiesced :: "event \<Rightarrow> bool" where
  "quiesced e = (case e of Pin pps con lat \<Rightarrow> con = 0 \<and> \<not> lat | Delay n \<Rightarrow> True)"

definition flags_ok :: "mcu \<Rightarrow> bool" where
  "flags_ok s \<longleftrightarrow> (halted s = 0 \<and> running s = 1) \<or> (halted s = 1 \<and> running s = 0)"

text \<open>What holds every time control is at the head of the loop.\<close>

definition loop_inv :: "mcu \<Rightarrow> bool" where
  "loop_inv s \<longleftrightarrow>
     \<not> LATB6 s \<and> flags_ok s \<and>
     (software_mode s \<noteq> 0 \<longrightarrow> NCO1CON s = 0) \<and>
     (halted s \<noteq> 0 \<longrightarrow> NCO1CON s = 0) \<and>
     (halted s = 0 \<and> software_mode s = 0 \<longrightarrow> RB6PPS s = 0x1D) \<and>
     list_all exclusive (trace s)"

text \<open>What holds during the high phase of the software generator.\<close>

definition high_inv :: "mcu \<Rightarrow> bool" where
  "high_inv s \<longleftrightarrow>
     NCO1CON s = 0 \<and> software_mode s \<noteq> 0 \<and> halted s = 0 \<and> running s = 1 \<and>
     list_all exclusive (trace s)"

text \<open>The register writes of a hand-over from the software generator to the NCO:
  \<open>nco_connect\<close> (route the pin to the NCO while the NCO is disabled, then enable it)
  followed by \<open>nco_set_increment\<close> (disable, load, enable), all with the latch low.\<close>

definition handoff_events :: "event list" where
  "handoff_events =
     [Pin 0x1D 0 False, Pin 0x1D 0x80 False, Pin 0x1D 0 False, Pin 0x1D 0x80 False]"

text \<open>The number of output pulses that start in a stretch of the log: the events that
  leave the latch high while RB6PPS = 0 selects the latch as the source of the pin.  In
  step mode the only event that leaves the latch high is the first write of
  \<open>output_step_pulse\<close>.\<close>

definition pulses :: "event list \<Rightarrow> nat" where
  "pulses es =
     length (filter (\<lambda>e. case e of Pin p c l \<Rightarrow> l \<and> p = 0 | Delay n \<Rightarrow> False) es)"

text \<open>A register write made while RB6PPS = 0x1D selects the NCO as the source of the pin,
  so that the latch does not reach the pin.\<close>

definition routed_to_nco :: "event \<Rightarrow> bool" where
  "routed_to_nco e = (case e of Pin pps con lat \<Rightarrow> pps = 0x1D | Delay n \<Rightarrow> True)"

text \<open>The number of presses in a sequence of readings of the button pin RC4 (low is
  pressed): the number of maximal runs of low readings.\<close>

fun presses :: "bool list \<Rightarrow> nat" where
  "presses [] = 0"
| "presses [b] = (if b then 0 else 1)"
| "presses (b # c # bs) = (if \<not> b \<and> c then 1 else 0) + presses (c # bs)"

text \<open>The press that \<open>button_pressed\<close> accepts: the pin reads low at the first read and
  again at the read 20 ms later.\<close>

definition confirmed_press :: "inputs list \<Rightarrow> bool" where
  "confirmed_press bs = (case bs of b1 # b2 # r \<Rightarrow> \<not> RC4 b1 \<and> \<not> RC4 b2 | _ \<Rightarrow> False)"

text \<open>The button samples suffice for a step pass to return: there is a first
  reading; if it is pressed there is a confirming reading; and if that is pressed too,
  a released reading follows.\<close>

definition samples_suffice :: "inputs list \<Rightarrow> bool" where
  "samples_suffice bs =
     (case bs of
        [] \<Rightarrow> False
      | b1 # r \<Rightarrow> RC4 b1 \<or> (case r of [] \<Rightarrow> False | b2 # r2 \<Rightarrow> RC4 b2 \<or> list_ex RC4 r2))"

text \<open>The last \<open>k\<close> events of a log.\<close>

definition latest :: "nat \<Rightarrow> event list \<Rightarrow> event list" where
  "latest k es = drop (length es - k) es"

text \<open>A table and inputs to run the model on: samples below 8 select software mode
  with a half period of 480 cycles, the others select the NCO with the sample as the
  increment.\<close>

definition demo_table :: "uint8_t \<Rightarrow> uint32_t" where
  "demo_table a = (if a < 8 then 0x800001E0 else ucast a)"

definition smp :: "bool \<Rightarrow> bool \<Rightarrow> bool \<Rightarrow> uint8_t \<Rightarrow> inputs" where
  "smp h b p a = \<lparr>RC6 = h, RC4 = b, RC3 = p, ADRESH = a\<rparr>"

text \<open>The registers after a reset, with the samples \<open>xs\<close> to come and an empty log.\<close>

definition reset_state :: "inputs list \<Rightarrow> mcu" where
  "reset_state xs =
     \<lparr>RB6PPS = 0, NCO1CON = 0, NCO1CLK = 0, NCO1INCU = 0, NCO1INCH = 0, NCO1INCL = 1,
      NCO1ACCU = 0, NCO1ACCH = 0, NCO1ACCL = 0, LATB6 = False, LATC5 = False,
      last_adc = 0, freq_entry = 0, software_mode = 0, half_period = 0,
      running = 0, halted = 0, ins = xs, trace = []\<rparr>"

subsection \<open>Reads\<close>

lemmas io_defs = write_RB6PPS_def write_NCO1CON_def write_LATB6_def delay_us_def delay_ms_def

lemmas nco_defs = nco_init_def nco_set_increment_def nco_stop_def nco_disconnect_def
  nco_connect_def

declare high_loop.simps [simp del] low_loop.simps [simp del]

lemma read_port_Some:
  "read_port f s = Some (v, s') \<Longrightarrow> \<exists>x xs. ins s = x # xs \<and> v = f x \<and> s' = s\<lparr>ins := xs\<rparr>"
  by (cases "ins s") (simp_all add: read_port_def)

lemma read_mode_Cons:
  "ins s = x # y # xs \<Longrightarrow> read_mode s = Some (mode_bits x y, s\<lparr>ins := xs\<rparr>)"
  by (simp add: read_mode_def read_port_def mode_bits_def)

lemma read_mode_Some:
  "read_mode s = Some (m, s') \<Longrightarrow>
     \<exists>x y xs. ins s = x # y # xs \<and> s' = s\<lparr>ins := xs\<rparr> \<and> m = mode_bits x y"
proof -
  assume a: "read_mode s = Some (m, s')"
  then obtain x r where 1: "ins s = x # r"
    by (cases "ins s") (simp_all add: read_mode_def read_port_def)
  with a obtain y xs where 2: "r = y # xs"
    by (cases r) (simp_all add: read_mode_def read_port_def)
  from a 1 2 have "s' = s\<lparr>ins := xs\<rparr> \<and> m = mode_bits x y"
    by (auto simp: read_mode_def read_port_def mode_bits_def)
  with 1 2 show ?thesis by blast
qed

lemma button_pressedE:
  assumes "button_pressed s = Some (b, s')"
  obtains r where "s' = s\<lparr>ins := r\<rparr>" | r where "s' = (delay_ms 20 s)\<lparr>ins := r\<rparr>"
  using assms
  by (auto simp: button_pressed_def io_defs dest!: read_port_Some
        split: Option.bind_splits if_splits)

lemma wait_button_release_Some:
  "wait_button_release s = Some s' \<Longrightarrow> \<exists>r. s' = delay_ms 20 (s\<lparr>ins := r\<rparr>)"
  by (auto simp: wait_button_release_def split: option.splits)

subsection \<open>The invariant of the control loop\<close>

lemma loop_inv_ins [simp]: "loop_inv (s\<lparr>ins := xs\<rparr>) = loop_inv s"
  by (simp add: loop_inv_def flags_ok_def)

lemma halt_mode_inv: "loop_inv s \<Longrightarrow> loop_inv (halt_mode s)"
  by (auto simp: loop_inv_def flags_ok_def halt_mode_def io_defs nco_defs exclusive_def)

lemma step_mode_inv: "step_mode s = Some s' \<Longrightarrow> loop_inv s \<Longrightarrow> loop_inv s'"
  apply (clarsimp simp: step_mode_def Let_def split: Option.bind_splits if_splits)
   apply (auto elim!: button_pressedE dest!: wait_button_release_Some)
         apply (auto simp: loop_inv_def flags_ok_def io_defs nco_defs output_step_pulse_def
      exclusive_def)
  done

lemma resume_inv:
  "resume ft s = Some s' \<Longrightarrow> loop_inv s \<Longrightarrow> halted s \<noteq> 0 \<Longrightarrow> loop_inv s' \<and> halted s' = 0"
  by (auto simp: resume_def adc_read_def Let_def loop_inv_def flags_ok_def io_defs nco_defs
        exclusive_def dest!: read_port_Some split: Option.bind_splits if_splits)

lemma high_check_inv: "high_check s = Some (b, s') \<Longrightarrow> high_inv s \<Longrightarrow> high_inv s'"
  by (auto simp: high_check_def high_inv_def io_defs exclusive_def
        dest!: read_mode_Some split: Option.bind_splits if_splits)

lemma high_loop_inv: "high_loop i d s = Some s' \<Longrightarrow> high_inv s \<Longrightarrow> high_inv s'"
proof (induction i d s rule: high_loop.induct)
  case (1 i d s)
  have dl: "high_inv (delay_us 10 s)"
    using "1.prems"(2) by (simp add: high_inv_def delay_us_def exclusive_def)
  show ?case
  proof (cases "i < d")
    case False
    with "1.prems" show ?thesis by (simp add: high_loop.simps [of i d s])
  next
    case lt: True
    show ?thesis
    proof (cases "i AND 0x3FF = 0")
      case False
      with lt "1.prems"(1) have "high_loop (i + 1) d (delay_us 10 s) = Some s'"
        by (simp add: high_loop.simps [of i d s])
      with "1.IH"(2) lt False dl show ?thesis by simp
    next
      case chk: True
      with lt "1.prems"(1) obtain b s2 where
        hc: "high_check (delay_us 10 s) = Some (b, s2)"
        and rest: "if b then s' = s2 else high_loop (i + 1) d s2 = Some s'"
        by (auto simp: high_loop.simps [of i d s] split: option.splits if_splits)
      from hc dl have i2: "high_inv s2" by (rule high_check_inv)
      show ?thesis
      proof (cases b)
        case True with rest i2 show ?thesis by simp
      next
        case False
        with rest have "high_loop (i + 1) d s2 = Some s'" by simp
        with "1.IH"(1) [OF lt refl chk hc refl] False i2 show ?thesis by simp
      qed
    qed
  qed
qed

lemma low_check_inv:
  "low_check ft d s = Some (b, d', s') \<Longrightarrow>
     loop_inv s \<and> halted s = 0 \<and> software_mode s \<noteq> 0 \<Longrightarrow>
     loop_inv s' \<and> halted s' = 0 \<and> (\<not> b \<longrightarrow> software_mode s' \<noteq> 0)"
  by (auto simp: low_check_def adc_read_def Let_def loop_inv_def flags_ok_def io_defs nco_defs
        exclusive_def dest!: read_mode_Some read_port_Some split: Option.bind_splits if_splits)

lemma low_loop_inv:
  "low_loop ft i d s = Some s' \<Longrightarrow>
     loop_inv s \<and> halted s = 0 \<and> software_mode s \<noteq> 0 \<Longrightarrow>
     loop_inv s' \<and> halted s' = 0"
proof (induction ft i d s rule: low_loop.induct)
  case (1 ft i d s)
  have dl: "loop_inv (delay_us 10 s) \<and> halted (delay_us 10 s) = 0 \<and>
      software_mode (delay_us 10 s) \<noteq> 0"
    using "1.prems"(2) by (auto simp: loop_inv_def flags_ok_def delay_us_def exclusive_def)
  show ?case
  proof (cases "i < d")
    case False
    with "1.prems" show ?thesis by (simp add: low_loop.simps [of ft i d s])
  next
    case lt: True
    show ?thesis
    proof (cases "i AND 0x3FF = 0")
      case False
      with lt "1.prems"(1) have "low_loop ft (i + 1) d (delay_us 10 s) = Some s'"
        by (simp add: low_loop.simps [of ft i d s])
      with "1.IH"(2) lt False dl show ?thesis by simp
    next
      case chk: True
      with lt "1.prems"(1) obtain b d2 s2 where
        hc: "low_check ft d (delay_us 10 s) = Some (b, d2, s2)"
        and rest: "if b then s' = s2 else low_loop ft (i + 1) d2 s2 = Some s'"
        by (auto simp: low_loop.simps [of ft i d s] split: option.splits if_splits)
      from hc dl have i2: "loop_inv s2 \<and> halted s2 = 0 \<and> (\<not> b \<longrightarrow> software_mode s2 \<noteq> 0)"
        by (rule low_check_inv)
      show ?thesis
      proof (cases b)
        case True with rest i2 show ?thesis by simp
      next
        case False
        with rest have "low_loop ft (i + 1) d2 s2 = Some s'" by simp
        with "1.IH"(1) [OF lt refl chk hc refl refl] False i2 show ?thesis by simp
      qed
    qed
  qed
qed

lemma software_cycle_inv:
  "software_cycle ft s = Some s' \<Longrightarrow> loop_inv s \<Longrightarrow> halted s = 0 \<Longrightarrow> software_mode s \<noteq> 0 \<Longrightarrow>
     loop_inv s' \<and> halted s' = 0"
proof -
  assume sc: "software_cycle ft s = Some s'" and inv: "loop_inv s" and h: "halted s = 0"
    and sw: "software_mode s \<noteq> 0"
  from sc obtain s2 where
    hl: "high_loop 0 (half_period s div 240) (write_LATB6 True s) = Some s2"
    and ll: "low_loop ft 0 (half_period s div 240) (write_LATB6 False s2) = Some s'"
    by (auto simp: software_cycle_def Let_def write_LATB6_def split: Option.bind_splits)
  from inv h sw have "high_inv (write_LATB6 True s)"
    by (auto simp: high_inv_def loop_inv_def flags_ok_def write_LATB6_def exclusive_def)
  with hl have h2: "high_inv s2" by (rule high_loop_inv)
  have "loop_inv (write_LATB6 False s2) \<and> halted (write_LATB6 False s2) = 0 \<and>
      software_mode (write_LATB6 False s2) \<noteq> 0"
    using h2 by (auto simp: high_inv_def loop_inv_def flags_ok_def write_LATB6_def exclusive_def)
  with ll show ?thesis by (rule low_loop_inv)
qed

lemma nco_poll_inv:
  "nco_poll ft s = Some s' \<Longrightarrow> loop_inv s \<Longrightarrow> halted s = 0 \<Longrightarrow> software_mode s = 0 \<Longrightarrow>
     loop_inv s' \<and> halted s' = 0"
  by (auto simp: nco_poll_def adc_read_def Let_def loop_inv_def flags_ok_def io_defs nco_defs
        exclusive_def dest!: read_port_Some split: Option.bind_splits if_splits)

lemma iteration_Cons:
  "ins s = x # y # xs \<Longrightarrow> iteration ft s = dispatch ft (mode_bits x y) (s\<lparr>ins := xs\<rparr>)"
  by (simp add: iteration_def read_mode_Cons)

lemma iteration_Some:
  assumes "iteration ft s = Some s'"
  obtains x y xs where "ins s = x # y # xs"
    and "dispatch ft (mode_bits x y) (s\<lparr>ins := xs\<rparr>) = Some s'"
proof -
  from assms obtain m s1 where rm: "read_mode s = Some (m, s1)"
    and d: "dispatch ft m s1 = Some s'"
    by (auto simp: iteration_def split: Option.bind_splits)
  from rm obtain x y xs where "ins s = x # y # xs" "s1 = s\<lparr>ins := xs\<rparr>" "m = mode_bits x y"
    by (auto dest!: read_mode_Some)
  with d show ?thesis by (auto intro: that)
qed

lemma dispatch_inv: "dispatch ft m s = Some s' \<Longrightarrow> loop_inv s \<Longrightarrow> loop_inv s'"
proof -
  assume br: "dispatch ft m s = Some s'" and i1: "loop_inv s"
  show ?thesis
  proof (cases "m AND 2 \<noteq> 0")
    case True
    with br i1 show ?thesis by (auto simp: dispatch_def intro: halt_mode_inv)
  next
    case nh: False
    show ?thesis
    proof (cases "m AND 1 \<noteq> 0")
      case True
      with nh br i1 show ?thesis by (auto simp: dispatch_def intro: step_mode_inv)
    next
      case False
      with nh br obtain s2 where
        r: "(if halted s \<noteq> 0 then resume ft s else Some s) = Some s2"
        and g: "(if software_mode s2 \<noteq> 0 then software_cycle ft s2 else nco_poll ft s2)
                = Some s'"
        by (auto simp: dispatch_def split: Option.bind_splits)
      from r i1 have i2: "loop_inv s2 \<and> halted s2 = 0"
        by (auto dest: resume_inv split: if_splits)
      with g show ?thesis
        by (auto dest: software_cycle_inv nco_poll_inv split: if_splits)
    qed
  qed
qed

lemma iteration_inv: "iteration ft s = Some s' \<Longrightarrow> loop_inv s \<Longrightarrow> loop_inv s'"
  by (erule iteration_Some) (auto dest: dispatch_inv)

lemma startup_inv: "startup ft s = Some s' \<Longrightarrow> trace s = [] \<Longrightarrow> loop_inv s'"
  by (auto simp: startup_def adc_read_def Let_def loop_inv_def flags_ok_def io_defs nco_defs
        exclusive_def dest!: read_port_Some split: Option.bind_splits if_splits)

lemma run_inv: "run ft n s = Some s' \<Longrightarrow> loop_inv s \<Longrightarrow> loop_inv s'"
  by (induction n arbitrary: s') (auto split: option.splits dest: iteration_inv)

lemma main_upto_inv: "main_upto ft n s = Some s' \<Longrightarrow> trace s = [] \<Longrightarrow> loop_inv s'"
  by (auto simp: main_upto_def split: option.splits dest: startup_inv run_inv)

lemma main_upto_Suc:
  "main_upto ft (Suc n) s =
     (case main_upto ft n s of None \<Rightarrow> None | Some s' \<Rightarrow> iteration ft s')"
  by (simp add: main_upto_def split: option.splits)

section \<open>The claims\<close>

subsection \<open>C1: the hand-over between the generators\<close>

lemma step_mode_halted: "step_mode s = Some s' \<Longrightarrow> halted s' \<noteq> 0"
  apply (clarsimp simp: step_mode_def Let_def split: Option.bind_splits if_splits)
   apply (auto elim!: button_pressedE dest!: wait_button_release_Some)
         apply (auto simp: io_defs output_step_pulse_def)
  done

lemma low_check_handoff:
  "low_check ft d s = Some (b, d', s') \<Longrightarrow> software_mode s \<noteq> 0 \<Longrightarrow> NCO1CON s = 0 \<Longrightarrow>
     \<not> LATB6 s \<Longrightarrow>
     (software_mode s' \<noteq> 0 \<and> NCO1CON s' = 0 \<and> \<not> LATB6 s' \<and> trace s' = trace s) \<or>
     (software_mode s' = 0 \<and> b \<and> trace s' = trace s @ handoff_events)"
  by (auto simp: low_check_def adc_read_def Let_def io_defs nco_defs handoff_events_def
        dest!: read_mode_Some read_port_Some split: Option.bind_splits if_splits)

lemma low_loop_handoff:
  "low_loop ft i d s = Some s' \<Longrightarrow> software_mode s \<noteq> 0 \<Longrightarrow> NCO1CON s = 0 \<Longrightarrow> \<not> LATB6 s \<Longrightarrow>
     \<exists>lo. list_all quiesced lo \<and>
       (software_mode s' \<noteq> 0 \<and> trace s' = trace s @ lo \<or>
        software_mode s' = 0 \<and> trace s' = trace s @ lo @ handoff_events)"
proof (induction ft i d s rule: low_loop.induct)
  case (1 ft i d s)
  let ?s1 = "delay_us 10 s"
  have dl: "software_mode ?s1 \<noteq> 0" "NCO1CON ?s1 = 0" "\<not> LATB6 ?s1"
    and tr: "trace ?s1 = trace s @ [Delay 10]"
    using "1.prems"(2-4) by (simp_all add: delay_us_def)
  have q: "quiesced (Delay 10)" by (simp add: quiesced_def)
  show ?case
  proof (cases "i < d")
    case False
    with "1.prems" have "s' = s" by (simp add: low_loop.simps [of ft i d s])
    with "1.prems"(2) have "list_all quiesced [] \<and>
       (software_mode s' \<noteq> 0 \<and> trace s' = trace s @ [] \<or>
        software_mode s' = 0 \<and> trace s' = trace s @ [] @ handoff_events)" by simp
    then show ?thesis by blast
  next
    case lt: True
    show ?thesis
    proof (cases "i AND 0x3FF = 0")
      case False
      with lt "1.prems"(1) have "low_loop ft (i + 1) d ?s1 = Some s'"
        by (simp add: low_loop.simps [of ft i d s])
      from "1.IH"(2) [OF lt refl False this dl] obtain lo where
        "list_all quiesced lo \<and>
         (software_mode s' \<noteq> 0 \<and> trace s' = trace ?s1 @ lo \<or>
          software_mode s' = 0 \<and> trace s' = trace ?s1 @ lo @ handoff_events)" by blast
      with tr q have "list_all quiesced (Delay 10 # lo) \<and>
         (software_mode s' \<noteq> 0 \<and> trace s' = trace s @ (Delay 10 # lo) \<or>
          software_mode s' = 0 \<and> trace s' = trace s @ (Delay 10 # lo) @ handoff_events)"
        by simp
      then show ?thesis by blast
    next
      case chk: True
      with lt "1.prems"(1) obtain b d2 s2 where
        hc: "low_check ft d ?s1 = Some (b, d2, s2)"
        and rest: "if b then s' = s2 else low_loop ft (i + 1) d2 s2 = Some s'"
        by (auto simp: low_loop.simps [of ft i d s] split: option.splits if_splits)
      from low_check_handoff [OF hc dl] have
        c: "(software_mode s2 \<noteq> 0 \<and> NCO1CON s2 = 0 \<and> \<not> LATB6 s2 \<and> trace s2 = trace ?s1) \<or>
            (software_mode s2 = 0 \<and> b \<and> trace s2 = trace ?s1 @ handoff_events)" .
      show ?thesis
      proof (cases b)
        case True
        with rest have "s' = s2" by simp
        with c tr q have "list_all quiesced [Delay 10] \<and>
         (software_mode s' \<noteq> 0 \<and> trace s' = trace s @ [Delay 10] \<or>
          software_mode s' = 0 \<and> trace s' = trace s @ [Delay 10] @ handoff_events)"
          by auto
        then show ?thesis by blast
      next
        case False
        with rest have ll: "low_loop ft (i + 1) d2 s2 = Some s'" by simp
        from c False have c2: "software_mode s2 \<noteq> 0" "NCO1CON s2 = 0" "\<not> LATB6 s2"
          and t2: "trace s2 = trace ?s1" by auto
        from "1.IH"(1) [OF lt refl chk hc refl refl False ll c2] obtain lo where
          "list_all quiesced lo \<and>
           (software_mode s' \<noteq> 0 \<and> trace s' = trace s2 @ lo \<or>
            software_mode s' = 0 \<and> trace s' = trace s2 @ lo @ handoff_events)" by blast
        with tr t2 q have "list_all quiesced (Delay 10 # lo) \<and>
         (software_mode s' \<noteq> 0 \<and> trace s' = trace s @ (Delay 10 # lo) \<or>
          software_mode s' = 0 \<and> trace s' = trace s @ (Delay 10 # lo) @ handoff_events)"
          by simp
        then show ?thesis by blast
      qed
    qed
  qed
qed

lemma software_cycle_handoff:
  assumes sc: "software_cycle ft s = Some s'" and inv: "loop_inv s" and h: "halted s = 0"
    and sw: "software_mode s \<noteq> 0" and sw': "software_mode s' = 0"
  shows "\<exists>pre p lo. trace s' = pre @ Pin p 0 False # lo @ handoff_events \<and>
           list_all quiesced lo"
proof -
  from sc obtain s2 where
    hl: "high_loop 0 (half_period s div 240) (write_LATB6 True s) = Some s2"
    and ll: "low_loop ft 0 (half_period s div 240) (write_LATB6 False s2) = Some s'"
    by (auto simp: software_cycle_def Let_def write_LATB6_def split: Option.bind_splits)
  from inv h sw have "high_inv (write_LATB6 True s)"
    by (auto simp: high_inv_def loop_inv_def flags_ok_def write_LATB6_def exclusive_def)
  with hl have h2: "high_inv s2" by (rule high_loop_inv)
  let ?s3 = "write_LATB6 False s2"
  from h2 have c: "software_mode ?s3 \<noteq> 0" "NCO1CON ?s3 = 0" "\<not> LATB6 ?s3"
    and t3: "trace ?s3 = trace s2 @ [Pin (RB6PPS s2) 0 False]"
    by (simp_all add: high_inv_def write_LATB6_def)
  from low_loop_handoff [OF ll c] sw' obtain lo where
    "list_all quiesced lo" "trace s' = trace ?s3 @ lo @ handoff_events" by auto
  with t3 have "trace s' = trace s2 @ Pin (RB6PPS s2) 0 False # lo @ handoff_events \<and>
      list_all quiesced lo" by simp
  then show ?thesis by blast
qed

lemma nco_poll_handoff:
  assumes np: "nco_poll ft s = Some s'" and inv: "loop_inv s" and h: "halted s = 0"
    and sw: "software_mode s = 0" and sw': "software_mode s' \<noteq> 0"
  shows "trace s' = trace s @ [Pin 0x1D 0 False, Pin 0 0 False, Pin 0 0 False, Delay 20000] \<and>
         RB6PPS s' = 0 \<and> NCO1CON s' = 0 \<and> \<not> LATB6 s'"
  using assms
  by (auto simp: nco_poll_def adc_read_def Let_def loop_inv_def io_defs nco_defs
        dest!: read_port_Some split: Option.bind_splits if_splits)

text \<open>
  C1.  Take any run of \<open>main\<close> and any pass of it that starts and ends \<open>Running\<close>.
  At every instant of the run so far the two generators do not assert together: whenever
  the latch is high the NCO is disabled.  If the pass hands over from the software
  generator to the NCO, the log ends with the write that began the low phase (latch low,
  NCO disabled), then events that all leave the latch low and the NCO disabled, then the
  four writes of \<open>nco_connect\<close> and \<open>nco_set_increment\<close>, made with the latch low, the
  pin being routed to the NCO while the NCO is still disabled.  If the pass hands over
  from the NCO to the software generator, its register writes are those of
  \<open>nco_disconnect\<close>: the NCO is disabled first, then detached, then the latch is
  written low, and the pass ends there, before any software phase.
\<close>

theorem handoff_never_contends:
  assumes "trace s0 = []" and "main_upto ft n s0 = Some s" and "halted s = 0"
    and "iteration ft s = Some s'" and "halted s' = 0"
  shows "list_all exclusive (trace s') \<and>
         (software_mode s \<noteq> 0 \<and> software_mode s' = 0 \<longrightarrow>
            (\<exists>pre p lo. trace s' = pre @ Pin p 0 False # lo @ handoff_events \<and>
               list_all quiesced lo)) \<and>
         (software_mode s = 0 \<and> software_mode s' \<noteq> 0 \<longrightarrow>
            trace s' = trace s @ [Pin 0x1D 0 False, Pin 0 0 False, Pin 0 0 False, Delay 20000] \<and>
            RB6PPS s' = 0 \<and> NCO1CON s' = 0 \<and> \<not> LATB6 s')"
proof -
  from assms(1,2) have inv: "loop_inv s" by (rule main_upto_inv [rotated])
  with assms(4) have "loop_inv s'" by (rule iteration_inv)
  then have ex: "list_all exclusive (trace s')" by (simp add: loop_inv_def)
  from assms(4) obtain x y xs where "ins s = x # y # xs"
    and d: "dispatch ft (mode_bits x y) (s\<lparr>ins := xs\<rparr>) = Some s'"
    by (rule iteration_Some)
  let ?s1 = "s\<lparr>ins := xs\<rparr>"
  from inv have inv1: "loop_inv ?s1" by simp
  have m2: "mode_bits x y AND 2 = 0"
  proof (rule ccontr)
    assume "mode_bits x y AND 2 \<noteq> 0"
    with d have "s' = halt_mode ?s1" by (simp add: dispatch_def)
    with assms(3,5) show False by (simp add: halt_mode_def io_defs)
  qed
  have m1: "mode_bits x y AND 1 = 0"
  proof (rule ccontr)
    assume "mode_bits x y AND 1 \<noteq> 0"
    with d m2 have "step_mode ?s1 = Some s'" by (simp add: dispatch_def)
    with assms(5) show False by (auto dest: step_mode_halted)
  qed
  from d m1 m2 assms(3) have g:
    "(if software_mode s \<noteq> 0 then software_cycle ft ?s1 else nco_poll ft ?s1) = Some s'"
    by (simp add: dispatch_def)
  have a: "\<exists>pre p lo. trace s' = pre @ Pin p 0 False # lo @ handoff_events \<and>
               list_all quiesced lo"
    if "software_mode s \<noteq> 0" "software_mode s' = 0"
    using software_cycle_handoff [of ft ?s1 s'] g inv1 assms(3) that by simp
  have b: "trace s' = trace s @ [Pin 0x1D 0 False, Pin 0 0 False, Pin 0 0 False, Delay 20000] \<and>
            RB6PPS s' = 0 \<and> NCO1CON s' = 0 \<and> \<not> LATB6 s'"
    if "software_mode s = 0" "software_mode s' \<noteq> 0"
    using nco_poll_handoff [of ft ?s1 s'] g inv1 assms(3) that by simp
  from ex a b show ?thesis by blast
qed

text \<open>A run that starts in software mode (sample 0) and reads sample 100 at the first
  re-check of its low phase.\<close>

theorem handoff_never_contends_witness:
  "\<exists>s s'. main_upto demo_table 0
            (reset_state (smp True True True 0 # replicate 6 (smp True True True 0) @
               [smp True True True 100])) = Some s \<and>
          iteration demo_table s = Some s' \<and>
          software_mode s \<noteq> 0 \<and> software_mode s' = 0 \<and> halted s = 0 \<and> halted s' = 0 \<and>
          list_all exclusive (trace s') \<and>
          (\<exists>pre p lo. trace s' = pre @ Pin p 0 False # lo @ handoff_events \<and>
             list_all quiesced lo)"
proof -
  let ?init = "reset_state (smp True True True 0 # replicate 6 (smp True True True 0) @
               [smp True True True 100])"
  let ?s = "the (main_upto demo_table 0 ?init)"
  let ?t = "the (iteration demo_table ?s)"
  have 0: "trace ?init = []" by (simp add: reset_state_def)
  have "main_upto demo_table 0 ?init \<noteq> None" by code_simp
  then have 1: "main_upto demo_table 0 ?init = Some ?s" by simp
  have 2: "halted ?s = 0" by code_simp
  have "iteration demo_table ?s \<noteq> None" by code_simp
  then have 3: "iteration demo_table ?s = Some ?t" by simp
  have 4: "halted ?t = 0" by code_simp
  have 5: "software_mode ?s \<noteq> 0" "software_mode ?t = 0" by code_simp+
  from handoff_never_contends [OF 0 1 2 3 4] 1 2 3 4 5 show ?thesis by blast
qed

subsection \<open>C2: the hysteresis rule\<close>

text \<open>
  C2.  In both places where the ADC is polled while running (the poll of NCO mode and the
  re-check of the software low phase, made there when the mode switches read
  \<open>Running\<close>), the new sample \<open>ADRESH x\<close> leads to a new table lookup and a
  reconfiguration exactly when it differs from \<open>last_adc\<close> by more than 1.  Otherwise
  nothing changes but the consumed samples and the 20 ms wait of the NCO poll.  Because the
  comparison is made on promoted integers this also holds at \<open>last_adc = 0\<close> and
  \<open>last_adc = 255\<close>.
\<close>

theorem hysteresis_rule:
  assumes "ins s = m1 # m2 # x # xs" and "RC6 m1" and "RC3 m2"
  shows
    "if 1 < \<bar>uint (ADRESH x) - uint (last_adc s)\<bar>
     then
       nco_poll ft (s\<lparr>ins := x # xs\<rparr>) =
         Some (delay_ms 20
           (if IS_SOFTWARE_MODE (ft (ADRESH x))
            then (nco_disconnect
                    (s\<lparr>ins := xs, last_adc := ADRESH x, freq_entry := ft (ADRESH x),
                       software_mode := 1\<rparr>))
                   \<lparr>half_period := GET_FREQ_VALUE (ft (ADRESH x))\<rparr>
            else nco_set_increment (GET_FREQ_VALUE (ft (ADRESH x)))
                   (s\<lparr>ins := xs, last_adc := ADRESH x, freq_entry := ft (ADRESH x)\<rparr>))) \<and>
       low_check ft d s =
         Some (if IS_SOFTWARE_MODE (ft (ADRESH x))
               then (False, GET_FREQ_VALUE (ft (ADRESH x)) div 240,
                     s\<lparr>ins := xs, last_adc := ADRESH x, freq_entry := ft (ADRESH x),
                       half_period := GET_FREQ_VALUE (ft (ADRESH x))\<rparr>)
               else (True, d,
                     nco_set_increment (GET_FREQ_VALUE (ft (ADRESH x)))
                       (nco_connect
                          (s\<lparr>ins := xs, last_adc := ADRESH x, freq_entry := ft (ADRESH x),
                             software_mode := 0\<rparr>))))
     else
       nco_poll ft (s\<lparr>ins := x # xs\<rparr>) = Some (delay_ms 20 (s\<lparr>ins := xs\<rparr>)) \<and>
       low_check ft d s = Some (False, d, s\<lparr>ins := xs\<rparr>)"
proof -
  have m: "mode_bits m1 m2 = 0" using assms by (simp add: mode_bits_def)
  show ?thesis
  proof (cases "1 < \<bar>uint (ADRESH x) - uint (last_adc s)\<bar>")
    case True
    then have mv: "adc_moved (ADRESH x) (last_adc s)" and ne: "ADRESH x \<noteq> last_adc s"
      by (auto simp: adc_moved_def)
    show ?thesis
      using True mv ne m assms(1)
      by (simp add: nco_poll_def low_check_def adc_read_def read_port_def read_mode_Cons Let_def)
  next
    case False
    then have mv: "\<not> adc_moved (ADRESH x) (last_adc s)"
      by (auto simp: adc_moved_def)
    show ?thesis
      using False mv m assms(1)
      by (simp add: nco_poll_def low_check_def adc_read_def read_port_def read_mode_Cons Let_def)
  qed
qed

text \<open>The rule at the two ends of the range: 254 after 255, and 1 after 0, change
  nothing.\<close>

theorem hysteresis_rule_witness:
  "nco_poll demo_table ((reset_state [smp True True True 254])\<lparr>last_adc := 255\<rparr>) =
     Some (delay_ms 20 ((reset_state [])\<lparr>last_adc := 255\<rparr>)) \<and>
   low_check demo_table 2
     ((reset_state [smp True True True 0, smp True True True 0, smp True True True 254])
        \<lparr>last_adc := 255\<rparr>) =
     Some (False, 2, (reset_state [])\<lparr>last_adc := 255\<rparr>) \<and>
   nco_poll demo_table (reset_state [smp True True True 1]) =
     Some (delay_ms 20 (reset_state [])) \<and>
   low_check demo_table 2
     (reset_state [smp True True True 0, smp True True True 0, smp True True True 1]) =
     Some (False, 2, reset_state [])"
  using hysteresis_rule
          [of "(reset_state [smp True True True 0, smp True True True 0, smp True True True 254])
                 \<lparr>last_adc := 255\<rparr>"
              "smp True True True 0" "smp True True True 0" "smp True True True 254" "[]"
              demo_table 2]
        hysteresis_rule
          [of "reset_state [smp True True True 0, smp True True True 0, smp True True True 1]"
              "smp True True True 0" "smp True True True 0" "smp True True True 1" "[]"
              demo_table 2]
  by (simp add: reset_state_def smp_def)

subsection \<open>C3: halt forces the output low\<close>

text \<open>
  C3.  Let \<open>s\<close> be the state at the head of the loop after any number of passes of any
  run of \<open>main\<close>, whatever mode it is in, and let the halt switch read asserted.  Then
  the pass ends in the halt branch with the latch low and the NCO disabled, so the pin is
  low whichever source RB6PPS selects; every register write of the pass leaves the NCO
  disabled and the latch low; and when the machine was already halted (every later pass
  with the switch still asserted) no register is written at all: the pass only consumes
  the two switch samples and waits 50 ms.
\<close>

theorem halt_forces_low:
  assumes "trace s0 = []" and "main_upto ft n s0 = Some s"
    and "ins s = x # y # xs" and "\<not> RC6 x"
  shows "main_upto ft (Suc n) s0 = Some (halt_mode (s\<lparr>ins := xs\<rparr>)) \<and>
         \<not> LATB6 (halt_mode (s\<lparr>ins := xs\<rparr>)) \<and>
         NCO1CON (halt_mode (s\<lparr>ins := xs\<rparr>)) = 0 \<and>
         halted (halt_mode (s\<lparr>ins := xs\<rparr>)) = 1 \<and>
         running (halt_mode (s\<lparr>ins := xs\<rparr>)) = 0 \<and>
         list_all quiesced (drop (length (trace s)) (trace (halt_mode (s\<lparr>ins := xs\<rparr>)))) \<and>
         (halted s \<noteq> 0 \<longrightarrow>
            halt_mode (s\<lparr>ins := xs\<rparr>) = s\<lparr>ins := xs, trace := trace s @ [Delay 50000]\<rparr>)"
proof -
  from assms(1,2) have inv: "loop_inv s" by (rule main_upto_inv [rotated])
  have it: "iteration ft s = Some (halt_mode (s\<lparr>ins := xs\<rparr>))"
    using assms(3,4) by (simp add: iteration_Cons dispatch_def mode_bits_def)
  with assms(2) have "main_upto ft (Suc n) s0 = Some (halt_mode (s\<lparr>ins := xs\<rparr>))"
    by (simp add: main_upto_Suc)
  moreover from inv have
    "\<not> LATB6 (halt_mode (s\<lparr>ins := xs\<rparr>)) \<and>
     NCO1CON (halt_mode (s\<lparr>ins := xs\<rparr>)) = 0 \<and>
     halted (halt_mode (s\<lparr>ins := xs\<rparr>)) = 1 \<and>
     running (halt_mode (s\<lparr>ins := xs\<rparr>)) = 0 \<and>
     list_all quiesced (drop (length (trace s)) (trace (halt_mode (s\<lparr>ins := xs\<rparr>))))"
    by (auto simp: loop_inv_def flags_ok_def halt_mode_def io_defs nco_defs quiesced_def)
  moreover have "halted s \<noteq> 0 \<longrightarrow>
      halt_mode (s\<lparr>ins := xs\<rparr>) = s\<lparr>ins := xs, trace := trace s @ [Delay 50000]\<rparr>"
    by (simp add: halt_mode_def io_defs)
  ultimately show ?thesis by blast
qed

text \<open>A run that starts in NCO mode (first sample 100) and finds the halt switch asserted
  in its first pass.\<close>

theorem halt_forces_low_witness:
  "\<exists>s'. main_upto demo_table 1
          (reset_state [smp True True True 100, smp False True True 0, smp False True True 0])
        = Some s' \<and>
        \<not> LATB6 s' \<and> NCO1CON s' = 0 \<and> halted s' = 1 \<and> running s' = 0"
proof -
  let ?s0 = "reset_state [smp True True True 100, smp False True True 0, smp False True True 0]"
  have 0: "trace ?s0 = []" by (simp add: reset_state_def)
  have "main_upto demo_table 0 ?s0 \<noteq> None" by code_simp
  then have 1: "main_upto demo_table 0 ?s0 = Some (the (main_upto demo_table 0 ?s0))" by simp
  have 2: "ins (the (main_upto demo_table 0 ?s0)) =
             smp False True True 0 # smp False True True 0 # []"
    by code_simp
  have 3: "\<not> RC6 (smp False True True 0)" by (simp add: smp_def)
  from halt_forces_low [OF 0 1 2 3] show ?thesis unfolding One_nat_def by blast
qed

subsection \<open>C4: what \<open>nco_disconnect\<close> does\<close>

text \<open>
  C4, as amended.  \<open>nco_disconnect\<close> disables the NCO (it writes 0 to NCO1CON, which
  clears the enable bit), then detaches it from the pin (RB6PPS := 0) and drives the
  latch low.  The clock, increment and accumulator registers keep their values, as do all
  variables of \<open>main\<close>.
\<close>

theorem nco_disconnect_disables:
  "nco_disconnect s =
     s\<lparr>NCO1CON := 0, RB6PPS := 0, LATB6 := False,
       trace := trace s @ [Pin (RB6PPS s) 0 (LATB6 s), Pin 0 0 (LATB6 s), Pin 0 0 False]\<rparr>"
  by (simp add: nco_disconnect_def io_defs)

text \<open>The claim as stated fails: after \<open>nco_init\<close> the NCO is enabled (NCO1CON = 0x80),
  and \<open>nco_disconnect\<close> leaves it disabled.\<close>

theorem nco_disconnect_counterexample:
  "NCO1CON (nco_init (reset_state [])) = 0x80 \<and>
   NCO1CON (nco_disconnect (nco_init (reset_state []))) = 0"
  by (simp add: nco_disconnect_def nco_init_def io_defs reset_state_def)

subsection \<open>C5: resuming into software mode after a halt in NCO mode\<close>

lemma high_check_routed:
  "high_check s = Some (b, s') \<Longrightarrow> RB6PPS s = 0x1D \<Longrightarrow>
     RB6PPS s' = 0x1D \<and> (\<exists>ev. trace s' = trace s @ ev \<and> list_all routed_to_nco ev)"
  by (auto simp: high_check_def io_defs routed_to_nco_def
        dest!: read_mode_Some split: Option.bind_splits if_splits)

lemma low_check_routed:
  "low_check ft d s = Some (b, d', s') \<Longrightarrow> RB6PPS s = 0x1D \<Longrightarrow>
     RB6PPS s' = 0x1D \<and> (\<exists>ev. trace s' = trace s @ ev \<and> list_all routed_to_nco ev)"
  by (auto simp: low_check_def adc_read_def Let_def io_defs nco_defs routed_to_nco_def
        dest!: read_mode_Some read_port_Some split: Option.bind_splits if_splits)

lemma high_loop_routed:
  "high_loop i d s = Some s' \<Longrightarrow> RB6PPS s = 0x1D \<Longrightarrow>
     RB6PPS s' = 0x1D \<and> (\<exists>ev. trace s' = trace s @ ev \<and> list_all routed_to_nco ev)"
proof (induction i d s rule: high_loop.induct)
  case (1 i d s)
  let ?s1 = "delay_us 10 s"
  have dl: "RB6PPS ?s1 = 0x1D" and tr: "trace ?s1 = trace s @ [Delay 10]"
    using "1.prems"(2) by (simp_all add: delay_us_def)
  have q: "routed_to_nco (Delay 10)" by (simp add: routed_to_nco_def)
  show ?case
  proof (cases "i < d")
    case False
    with "1.prems" have "s' = s" by (simp add: high_loop.simps [of i d s])
    with "1.prems"(2) have "RB6PPS s' = 0x1D \<and> trace s' = trace s @ [] \<and>
        list_all routed_to_nco []" by simp
    then show ?thesis by blast
  next
    case lt: True
    show ?thesis
    proof (cases "i AND 0x3FF = 0")
      case False
      with lt "1.prems"(1) have "high_loop (i + 1) d ?s1 = Some s'"
        by (simp add: high_loop.simps [of i d s])
      from "1.IH"(2) [OF lt refl False this dl] obtain ev where
        "RB6PPS s' = 0x1D" "trace s' = trace ?s1 @ ev" "list_all routed_to_nco ev" by blast
      with tr q have "RB6PPS s' = 0x1D \<and> trace s' = trace s @ (Delay 10 # ev) \<and>
          list_all routed_to_nco (Delay 10 # ev)" by simp
      then show ?thesis by blast
    next
      case chk: True
      with lt "1.prems"(1) obtain b s2 where
        hc: "high_check ?s1 = Some (b, s2)"
        and rest: "if b then s' = s2 else high_loop (i + 1) d s2 = Some s'"
        by (auto simp: high_loop.simps [of i d s] split: option.splits if_splits)
      from high_check_routed [OF hc dl] obtain e2 where
        c: "RB6PPS s2 = 0x1D" "trace s2 = trace ?s1 @ e2" "list_all routed_to_nco e2" by blast
      show ?thesis
      proof (cases b)
        case True
        with rest have "s' = s2" by simp
        with c tr q have "RB6PPS s' = 0x1D \<and> trace s' = trace s @ (Delay 10 # e2) \<and>
          list_all routed_to_nco (Delay 10 # e2)" by simp
        then show ?thesis by blast
      next
        case False
        with rest have ll: "high_loop (i + 1) d s2 = Some s'" by simp
        from "1.IH"(1) [OF lt refl chk hc refl False ll c(1)] obtain ev where
          "RB6PPS s' = 0x1D" "trace s' = trace s2 @ ev" "list_all routed_to_nco ev" by blast
        with c tr q have "RB6PPS s' = 0x1D \<and> trace s' = trace s @ (Delay 10 # e2 @ ev) \<and>
          list_all routed_to_nco (Delay 10 # e2 @ ev)" by simp
        then show ?thesis by blast
      qed
    qed
  qed
qed

lemma low_loop_routed:
  "low_loop ft i d s = Some s' \<Longrightarrow> RB6PPS s = 0x1D \<Longrightarrow>
     RB6PPS s' = 0x1D \<and> (\<exists>ev. trace s' = trace s @ ev \<and> list_all routed_to_nco ev)"
proof (induction ft i d s rule: low_loop.induct)
  case (1 ft i d s)
  let ?s1 = "delay_us 10 s"
  have dl: "RB6PPS ?s1 = 0x1D" and tr: "trace ?s1 = trace s @ [Delay 10]"
    using "1.prems"(2) by (simp_all add: delay_us_def)
  have q: "routed_to_nco (Delay 10)" by (simp add: routed_to_nco_def)
  show ?case
  proof (cases "i < d")
    case False
    with "1.prems" have "s' = s" by (simp add: low_loop.simps [of ft i d s])
    with "1.prems"(2) have "RB6PPS s' = 0x1D \<and> trace s' = trace s @ [] \<and>
        list_all routed_to_nco []" by simp
    then show ?thesis by blast
  next
    case lt: True
    show ?thesis
    proof (cases "i AND 0x3FF = 0")
      case False
      with lt "1.prems"(1) have "low_loop ft (i + 1) d ?s1 = Some s'"
        by (simp add: low_loop.simps [of ft i d s])
      from "1.IH"(2) [OF lt refl False this dl] obtain ev where
        "RB6PPS s' = 0x1D" "trace s' = trace ?s1 @ ev" "list_all routed_to_nco ev" by blast
      with tr q have "RB6PPS s' = 0x1D \<and> trace s' = trace s @ (Delay 10 # ev) \<and>
          list_all routed_to_nco (Delay 10 # ev)" by simp
      then show ?thesis by blast
    next
      case chk: True
      with lt "1.prems"(1) obtain b d2 s2 where
        hc: "low_check ft d ?s1 = Some (b, d2, s2)"
        and rest: "if b then s' = s2 else low_loop ft (i + 1) d2 s2 = Some s'"
        by (auto simp: low_loop.simps [of ft i d s] split: option.splits if_splits)
      from low_check_routed [OF hc dl] obtain e2 where
        c: "RB6PPS s2 = 0x1D" "trace s2 = trace ?s1 @ e2" "list_all routed_to_nco e2" by blast
      show ?thesis
      proof (cases b)
        case True
        with rest have "s' = s2" by simp
        with c tr q have "RB6PPS s' = 0x1D \<and> trace s' = trace s @ (Delay 10 # e2) \<and>
          list_all routed_to_nco (Delay 10 # e2)" by simp
        then show ?thesis by blast
      next
        case False
        with rest have ll: "low_loop ft (i + 1) d2 s2 = Some s'" by simp
        from "1.IH"(1) [OF lt refl chk hc refl refl False ll c(1)] obtain ev where
          "RB6PPS s' = 0x1D" "trace s' = trace s2 @ ev" "list_all routed_to_nco ev" by blast
        with c tr q have "RB6PPS s' = 0x1D \<and> trace s' = trace s @ (Delay 10 # e2 @ ev) \<and>
          list_all routed_to_nco (Delay 10 # e2 @ ev)" by simp
        then show ?thesis by blast
      qed
    qed
  qed
qed

lemma software_cycle_routed:
  assumes sc: "software_cycle ft s = Some s'" and r: "RB6PPS s = 0x1D"
  shows "RB6PPS s' = 0x1D \<and>
         (\<exists>ev. trace s' = trace s @ Pin 0x1D (NCO1CON s) True # ev \<and>
            list_all routed_to_nco ev)"
proof -
  let ?s1 = "write_LATB6 True s"
  from sc obtain s2 where
    hl: "high_loop 0 (half_period s div 240) ?s1 = Some s2"
    and ll: "low_loop ft 0 (half_period s div 240) (write_LATB6 False s2) = Some s'"
    by (auto simp: software_cycle_def Let_def write_LATB6_def split: Option.bind_splits)
  from r have r1: "RB6PPS ?s1 = 0x1D"
    and t1: "trace ?s1 = trace s @ [Pin 0x1D (NCO1CON s) True]"
    by (simp_all add: write_LATB6_def)
  from high_loop_routed [OF hl r1] obtain e2 where
    c2: "RB6PPS s2 = 0x1D" "trace s2 = trace ?s1 @ e2" "list_all routed_to_nco e2" by blast
  let ?s3 = "write_LATB6 False s2"
  from c2 have r3: "RB6PPS ?s3 = 0x1D"
    and t3: "trace ?s3 = trace s2 @ [Pin 0x1D (NCO1CON s2) False]"
    by (simp_all add: write_LATB6_def)
  from low_loop_routed [OF ll r3] obtain e4 where
    c4: "RB6PPS s' = 0x1D" "trace s' = trace ?s3 @ e4" "list_all routed_to_nco e4" by blast
  from t1 c2 t3 c4 have "RB6PPS s' = 0x1D \<and>
      trace s' = trace s @ Pin 0x1D (NCO1CON s) True # (e2 @ Pin 0x1D (NCO1CON s2) False # e4) \<and>
      list_all routed_to_nco (e2 @ Pin 0x1D (NCO1CON s2) False # e4)"
    by (simp add: routed_to_nco_def)
  then show ?thesis by blast
qed

text \<open>
  C5.  The code does not start the software generator on the pin on every resume.  Take
  any run of \<open>main\<close> that is halted with RB6PPS = 0x1D; that is the state a halt taken in
  NCO mode leaves, since \<open>nco_stop\<close> does not write RB6PPS.  Let the next pass read both
  switches deasserted and an ADC sample \<open>ADRESH z\<close> whose table entry is a software
  entry.  The pass re-samples, looks the sample up and runs the software generator with
  the entry's half period, but the resume block calls no \<open>nco_disconnect\<close> (its comment
  says RB6 is already disconnected from the NCO): RB6PPS is still 0x1D when the pass
  ends, the first write of the pass sets the latch high with the NCO disabled and still
  selected, and every register write of the pass is made with the NCO selected.  The
  latch toggles, and the pin is not routed to it.
\<close>

theorem resume_software_keeps_nco_routing:
  assumes "trace s0 = []" and "main_upto ft n s0 = Some s"
    and "halted s \<noteq> 0" and "RB6PPS s = 0x1D"
    and "ins s = x # y # z # xs" and "RC6 x" and "RC3 y"
    and "IS_SOFTWARE_MODE (ft (ADRESH z))"
    and "iteration ft s = Some s'"
  shows "iteration ft s =
           software_cycle ft
             (s\<lparr>ins := xs, last_adc := ADRESH z, freq_entry := ft (ADRESH z),
                software_mode := 1, half_period := GET_FREQ_VALUE (ft (ADRESH z)),
                LATC5 := True, running := 1, halted := 0\<rparr>) \<and>
         RB6PPS s' = 0x1D \<and>
         (\<exists>ev. trace s' = trace s @ Pin 0x1D 0 True # ev \<and> list_all routed_to_nco ev)"
proof -
  let ?s2 = "s\<lparr>ins := xs, last_adc := ADRESH z, freq_entry := ft (ADRESH z),
                software_mode := 1, half_period := GET_FREQ_VALUE (ft (ADRESH z)),
                LATC5 := True, running := 1, halted := 0\<rparr>"
  from assms(1,2) have inv: "loop_inv s" by (rule main_upto_inv [rotated])
  with assms(3) have n0: "NCO1CON s = 0" by (simp add: loop_inv_def)
  from assms(3,5-8) have it: "iteration ft s = software_cycle ft ?s2"
    by (simp add: iteration_Cons dispatch_def mode_bits_def resume_def adc_read_def
          read_port_def Let_def)
  with assms(9) have sc: "software_cycle ft ?s2 = Some s'" by simp
  from assms(4) have r: "RB6PPS ?s2 = 0x1D" by simp
  from software_cycle_routed [OF sc r] n0 it show ?thesis by simp
qed

text \<open>A run that starts in NCO mode (sample 100), is halted in its first pass, and
  resumes in its second pass with sample 0, a software entry of the demonstration
  table.\<close>

theorem resume_software_keeps_nco_routing_witness:
  "\<exists>s s'. main_upto demo_table 1
            (reset_state [smp True True True 100, smp False True True 0,
               smp False True True 0, smp True True True 0, smp True True True 0,
               smp True True True 0, smp True True True 0, smp True True True 0,
               smp True True True 0, smp True True True 0, smp True True True 0]) = Some s \<and>
          iteration demo_table s = Some s' \<and>
          software_mode s' = 1 \<and> halted s' = 0 \<and> RB6PPS s' = 0x1D \<and> NCO1CON s' = 0 \<and>
          (\<exists>ev. trace s' = trace s @ Pin 0x1D 0 True # ev \<and> list_all routed_to_nco ev)"
proof -
  let ?r = "smp True True True 0"
  let ?init = "reset_state [smp True True True 100, smp False True True 0,
               smp False True True 0, ?r, ?r, ?r, ?r, ?r, ?r, ?r, ?r]"
  let ?s = "the (main_upto demo_table 1 ?init)"
  let ?t = "the (iteration demo_table ?s)"
  have 0: "trace ?init = []" by (simp add: reset_state_def)
  have "main_upto demo_table 1 ?init \<noteq> None" by code_simp
  then have 1: "main_upto demo_table 1 ?init = Some ?s" by simp
  have 2: "halted ?s \<noteq> 0" "RB6PPS ?s = 0x1D" by code_simp+
  have 3: "ins ?s = ?r # ?r # ?r # [?r, ?r, ?r, ?r, ?r]" by code_simp
  have 4: "RC6 ?r" "RC3 ?r" "IS_SOFTWARE_MODE (demo_table (ADRESH ?r))"
    by (simp_all add: smp_def demo_table_def IS_SOFTWARE_MODE_def)
  have "iteration demo_table ?s \<noteq> None" by code_simp
  then have 5: "iteration demo_table ?s = Some ?t" by simp
  have 6: "software_mode ?t = 1" "halted ?t = 0" "NCO1CON ?t = 0" by code_simp+
  from resume_software_keeps_nco_routing [OF 0 1 2 3 4 5] 1 5 6 show ?thesis by blast
qed

subsection \<open>C6: one pulse for each confirmed press\<close>

lemma spin_while_pressed_Some:
  "spin_while_pressed xs = Some r \<Longrightarrow> r = tl (dropWhile (\<lambda>b. \<not> RC4 b) xs)"
  by (induction xs) (auto split: if_splits)

lemma step_mode_pulses:
  assumes "step_mode s = Some s'" and "\<not> LATB6 s" and "RB6PPS s' = 0"
  shows "pulses (drop (length (trace s)) (trace s')) = (if confirmed_press (ins s) then 1 else 0) \<and>
         (confirmed_press (ins s) \<longrightarrow>
            ins s' = tl (dropWhile (\<lambda>b. \<not> RC4 b) (drop 2 (ins s))) \<and>
            latest 6 (trace s') =
              [Delay 20000, Pin 0 (NCO1CON s') True, Delay 10000,
               Pin 0 (NCO1CON s') False, Delay 20000, Delay 10000]) \<and>
         (\<not> confirmed_press (ins s) \<longrightarrow>
            ins s' = (if RC4 (hd (ins s)) then tl (ins s) else drop 2 (ins s)) \<and>
            (\<not> RC4 (hd (ins s)) \<longrightarrow> latest 2 (trace s') = [Delay 20000, Delay 10000]))"
  using assms
  apply (clarsimp simp: step_mode_def button_pressed_def read_port_def Let_def
      wait_button_release_def
      split: Option.bind_splits list.splits if_splits option.splits)
  apply (auto simp: io_defs nco_defs output_step_pulse_def pulses_def confirmed_press_def latest_def
      dest!: spin_while_pressed_Some)
  done


lemma spin_while_pressed_None: "spin_while_pressed xs = None \<longleftrightarrow> \<not> list_ex RC4 xs"
  by (induction xs) auto

lemma step_mode_returns: "step_mode s \<noteq> None \<longleftrightarrow> samples_suffice (ins s)"
proof (cases "ins s")
  case Nil
  then show ?thesis
    by (simp add: step_mode_def button_pressed_def read_port_def Let_def samples_suffice_def
        io_defs nco_defs)
next
  case c1: (Cons b1 r)
  show ?thesis
  proof (cases r)
    case Nil
    with c1 show ?thesis
      by (simp add: step_mode_def button_pressed_def read_port_def Let_def
          samples_suffice_def io_defs nco_defs)
  next
    case c2: (Cons b2 r2)
    show ?thesis
    proof (cases "spin_while_pressed r2")
      case None
      moreover from None have "\<not> list_ex RC4 r2" by (simp add: spin_while_pressed_None)
      ultimately show ?thesis using c1 c2
        by (simp add: step_mode_def button_pressed_def read_port_def Let_def
            samples_suffice_def io_defs nco_defs wait_button_release_def
            output_step_pulse_def)
    next
      case (Some x)
      moreover from Some have "list_ex RC4 r2"
        using spin_while_pressed_None [of r2] by simp
      ultimately show ?thesis using c1 c2
        by (simp add: step_mode_def button_pressed_def read_port_def Let_def
            samples_suffice_def io_defs nco_defs wait_button_release_def
            output_step_pulse_def)
    qed
  qed
qed

text \<open>
  C6, as amended.  Take any run of \<open>main\<close> and a pass of it that finds the step switch
  selected; \<open>bs\<close> are the samples that answer its reads of the button.  The pass returns
  exactly when the samples suffice, that is, unless the button is held for as long as
  samples last.  Let the pass return with the pin routed to the latch (RB6PPS = 0).  Then
  it has emitted one output pulse if the button read pressed at the first read and again
  at the confirming read 20 ms later, and no pulse otherwise.  With a pulse, the pass
  ends with the 20 ms confirmation wait, the latch written high, a wait of 10 ms, the
  latch written low, and the waits of 20 ms and 10 ms, after reading the button until it
  read released and consuming every pressed reading on the way: a button held down gives
  one pulse, however long it is held.  A press that is gone at the confirming read costs
  the 20 ms wait and gives no pulse.  Nothing is said of a pass that returns with the pin
  still routed to the NCO.
\<close>

theorem step_one_pulse_per_confirmed_press:
  assumes "trace s0 = []" and "main_upto ft n s0 = Some s"
    and "ins s = x # y # bs" and "RC6 x" and "\<not> RC3 y"
  shows "(iteration ft s \<noteq> None) = samples_suffice bs \<and>
         (iteration ft s = Some s' \<and> RB6PPS s' = 0 \<longrightarrow>
            pulses (drop (length (trace s)) (trace s')) = (if confirmed_press bs then 1 else 0) \<and>
            (confirmed_press bs \<longrightarrow>
               ins s' = tl (dropWhile (\<lambda>b. \<not> RC4 b) (drop 2 bs)) \<and>
               latest 6 (trace s') =
                 [Delay 20000, Pin 0 0 True, Delay 10000, Pin 0 0 False, Delay 20000,
                  Delay 10000]) \<and>
            (\<not> confirmed_press bs \<longrightarrow>
               ins s' = (if RC4 (hd bs) then tl bs else drop 2 bs) \<and>
               (\<not> RC4 (hd bs) \<longrightarrow> latest 2 (trace s') = [Delay 20000, Delay 10000])))"
proof -
  from assms(1,2) have inv: "loop_inv s" by (rule main_upto_inv [rotated])
  then have l: "\<not> LATB6 (s\<lparr>ins := bs\<rparr>)" by (simp add: loop_inv_def)
  from assms(3-5) have it: "iteration ft s = step_mode (s\<lparr>ins := bs\<rparr>)"
    by (simp add: iteration_Cons dispatch_def mode_bits_def)
  have 1: "(iteration ft s \<noteq> None) = samples_suffice bs"
    using step_mode_returns [of "s\<lparr>ins := bs\<rparr>"] by (simp add: it)
  have 2: "pulses (drop (length (trace s)) (trace s')) = (if confirmed_press bs then 1 else 0) \<and>
            (confirmed_press bs \<longrightarrow>
               ins s' = tl (dropWhile (\<lambda>b. \<not> RC4 b) (drop 2 bs)) \<and>
               latest 6 (trace s') =
                 [Delay 20000, Pin 0 0 True, Delay 10000, Pin 0 0 False, Delay 20000,
                  Delay 10000]) \<and>
            (\<not> confirmed_press bs \<longrightarrow>
               ins s' = (if RC4 (hd bs) then tl bs else drop 2 bs) \<and>
               (\<not> RC4 (hd bs) \<longrightarrow> latest 2 (trace s') = [Delay 20000, Delay 10000]))"
    if a: "iteration ft s = Some s'" and r: "RB6PPS s' = 0"
  proof -
    from a it have sm: "step_mode (s\<lparr>ins := bs\<rparr>) = Some s'" by simp
    from a inv have "loop_inv s'" by (rule iteration_inv)
    moreover from sm have "halted s' \<noteq> 0" by (rule step_mode_halted)
    ultimately have "NCO1CON s' = 0" by (simp add: loop_inv_def)
    with step_mode_pulses [OF sm l r] show ?thesis by simp
  qed
  from 1 2 show ?thesis by blast
qed

text \<open>A run in NCO mode finds the step switch selected, so that the pass disconnects the
  NCO, and the button is held for four readings and then released: the pass returns with
  the pin routed to the latch, with one pulse and with every reading consumed.\<close>

theorem step_one_pulse_per_confirmed_press_witness:
  "\<exists>s s'. main_upto demo_table 0
            (reset_state [smp True True True 100, smp True True False 0,
               smp True True False 0, smp True False False 0, smp True False False 0,
               smp True False False 0, smp True False False 0, smp True True False 0]) = Some s \<and>
          iteration demo_table s = Some s' \<and> RB6PPS s' = 0 \<and>
          pulses (drop (length (trace s)) (trace s')) = 1 \<and> ins s' = [] \<and>
          latest 6 (trace s') =
            [Delay 20000, Pin 0 0 True, Delay 10000, Pin 0 0 False, Delay 20000, Delay 10000]"
proof -
  let ?p = "smp True False False 0"
  let ?bs = "[?p, ?p, ?p, ?p, smp True True False 0]"
  let ?init = "reset_state (smp True True True 100 # smp True True False 0 #
                 smp True True False 0 # ?bs)"
  let ?s = "the (main_upto demo_table 0 ?init)"
  let ?t = "the (iteration demo_table ?s)"
  have 0: "trace ?init = []" by (simp add: reset_state_def)
  have "main_upto demo_table 0 ?init \<noteq> None" by code_simp
  then have 1: "main_upto demo_table 0 ?init = Some ?s" by simp
  have 2: "ins ?s = smp True True False 0 # smp True True False 0 # ?bs" by code_simp
  have 3: "RC6 (smp True True False 0)" "\<not> RC3 (smp True True False 0)"
    by (simp_all add: smp_def)
  have 5: "confirmed_press ?bs" "tl (dropWhile (\<lambda>b. \<not> RC4 b) (drop 2 ?bs)) = []"
    "samples_suffice ?bs"
    by (simp_all add: confirmed_press_def samples_suffice_def smp_def)
  have 6: "RB6PPS ?t = 0" by code_simp
  note inst = step_one_pulse_per_confirmed_press [OF 0 1 2 3, of ?t]
  from inst 5 have 4: "iteration demo_table ?s = Some ?t" by simp
  with inst 5 6 have "pulses (drop (length (trace ?s)) (trace ?t)) = 1 \<and> ins ?t = [] \<and>
      latest 6 (trace ?t) =
        [Delay 20000, Pin 0 0 True, Delay 10000, Pin 0 0 False, Delay 20000, Delay 10000]"
    by simp
  with 1 4 6 show ?thesis by blast
qed

text \<open>The claim as stated fails for a short press: the button reads pressed once and
  released at the confirming read.  That is one press, the pin is routed to the latch
  when the pass ends, and the run emits no pulse.\<close>

theorem step_short_press_counterexample:
  "presses (map RC4 [smp True False False 0, smp True True False 0]) = 1 \<and>
   main_upto demo_table 1
     (reset_state [smp True True True 100, smp True True False 0, smp True True False 0,
        smp True False False 0, smp True True False 0]) \<noteq> None \<and>
   RB6PPS (the (main_upto demo_table 1
     (reset_state [smp True True True 100, smp True True False 0, smp True True False 0,
        smp True False False 0, smp True True False 0]))) = 0 \<and>
   pulses (trace (the (main_upto demo_table 1
     (reset_state [smp True True True 100, smp True True False 0, smp True True False 0,
        smp True False False 0, smp True True False 0])))) = 0 \<and>
   latest 2 (trace (the (main_upto demo_table 1
     (reset_state [smp True True True 100, smp True True False 0, smp True True False 0,
        smp True False False 0, smp True True False 0])))) = [Delay 20000, Delay 10000] \<and>
   ins (the (main_upto demo_table 1
     (reset_state [smp True True True 100, smp True True False 0, smp True True False 0,
        smp True False False 0, smp True True False 0]))) = []"
  by code_simp

subsection \<open>C7: an interrupted phase leaves the latch low\<close>

lemma low_check_LATB6: "low_check ft d s = Some (b, d', s') \<Longrightarrow> LATB6 s' = LATB6 s"
  by (auto simp: low_check_def adc_read_def Let_def io_defs nco_defs
        dest!: read_mode_Some read_port_Some split: Option.bind_splits if_splits)

lemma low_loop_LATB6: "low_loop ft i d s = Some s' \<Longrightarrow> LATB6 s' = LATB6 s"
proof (induction ft i d s rule: low_loop.induct)
  case (1 ft i d s)
  have dl: "LATB6 (delay_us 10 s) = LATB6 s" by (simp add: delay_us_def)
  show ?case
  proof (cases "i < d")
    case False
    with "1.prems" show ?thesis by (simp add: low_loop.simps [of ft i d s])
  next
    case lt: True
    show ?thesis
    proof (cases "i AND 0x3FF = 0")
      case False
      with lt "1.prems"(1) have "low_loop ft (i + 1) d (delay_us 10 s) = Some s'"
        by (simp add: low_loop.simps [of ft i d s])
      with "1.IH"(2) lt False dl show ?thesis by simp
    next
      case chk: True
      with lt "1.prems"(1) obtain b d2 s2 where
        hc: "low_check ft d (delay_us 10 s) = Some (b, d2, s2)"
        and rest: "if b then s' = s2 else low_loop ft (i + 1) d2 s2 = Some s'"
        by (auto simp: low_loop.simps [of ft i d s] split: option.splits if_splits)
      from hc dl have i2: "LATB6 s2 = LATB6 s" by (simp add: low_check_LATB6)
      show ?thesis
      proof (cases b)
        case True with rest i2 show ?thesis by simp
      next
        case False
        with rest have "low_loop ft (i + 1) d2 s2 = Some s'" by simp
        with "1.IH"(1) [OF lt refl chk hc refl refl] False i2 show ?thesis by simp
      qed
    qed
  qed
qed

lemma software_cycle_low: "software_cycle ft s = Some s' \<Longrightarrow> \<not> LATB6 s'"
  by (auto simp: software_cycle_def Let_def write_LATB6_def dest!: low_loop_LATB6
        split: Option.bind_splits)

lemma recheck_abort:
  assumes a: "ins t = x # y # xs" "\<not> RC6 x \<or> \<not> RC3 y" "i < d" "i AND 0x3FF = 0"
  shows "high_loop i d t = Some (write_LATB6 False ((delay_us 10 t)\<lparr>ins := xs\<rparr>)) \<and>
         low_loop ft i d t = Some ((delay_us 10 t)\<lparr>ins := xs\<rparr>)"
proof -
  from a(2) have m: "mode_bits x y \<noteq> 0" by (auto simp: mode_bits_def)
  from a(1) have "ins (delay_us 10 t) = x # y # xs" by (simp add: delay_us_def)
  then have rm: "read_mode (delay_us 10 t) =
      Some (mode_bits x y, (delay_us 10 t)\<lparr>ins := xs\<rparr>)"
    by (rule read_mode_Cons)
  from a(3,4) m show ?thesis
    by (simp add: high_loop.simps [of i d t] low_loop.simps [of ft i d t] high_check_def
          low_check_def rm)
qed

lemma word_div_pos: "(0 < h div 240) = (240 \<le> (h::uint32_t))"
  by (simp add: word_less_nat_alt word_le_nat_alt unat_div div_greater_zero_iff)

lemma software_cycle_abort:
  assumes i: "ins t = x # y # x' # y' # xs" and m: "\<not> RC6 x \<or> \<not> RC3 y"
    and m': "\<not> RC6 x' \<or> \<not> RC3 y'" and h: "240 \<le> half_period t"
  shows "software_cycle ft t =
           Some (t\<lparr>ins := xs, LATB6 := False,
                   trace := trace t @
                     [Pin (RB6PPS t) (NCO1CON t) True, Delay 10,
                      Pin (RB6PPS t) (NCO1CON t) False, Pin (RB6PPS t) (NCO1CON t) False,
                      Delay 10]\<rparr>)"
proof -
  let ?d = "half_period t div 240"
  let ?s1 = "write_LATB6 True t"
  let ?s2 = "write_LATB6 False ((delay_us 10 ?s1)\<lparr>ins := x' # y' # xs\<rparr>)"
  let ?s3 = "write_LATB6 False ?s2"
  from h have d: "0 < ?d" by (simp add: word_div_pos)
  have z: "(0::uint32_t) AND 0x3FF = 0" by simp
  from i have "ins ?s1 = x # y # x' # y' # xs" by (simp add: write_LATB6_def)
  from recheck_abort [OF this m d z, of ft]
  have hl: "high_loop 0 ?d ?s1 = Some ?s2" by simp
  have "ins ?s3 = x' # y' # xs" by (simp add: io_defs)
  from recheck_abort [OF this m' d z, of ft]
  have ll: "low_loop ft 0 ?d ?s3 = Some ((delay_us 10 ?s3)\<lparr>ins := xs\<rparr>)" by simp
  have "software_cycle ft t = Some ((delay_us 10 ?s3)\<lparr>ins := xs\<rparr>)"
    using hl ll by (simp add: software_cycle_def Let_def write_LATB6_def)
  then show ?thesis by (simp add: io_defs)
qed

text \<open>
  C7.  Every pass through the software generator that returns to the head of the loop
  returns with the latch low, however its phases ended.  At a re-check point (\<open>i\<close> a
  multiple of 1024, after the 10 microsecond quantum) where the mode switches no longer
  read \<open>Running\<close>, the high phase is left at once with the latch written low, and the
  low phase is left at once with no register written, the latch being low since the
  phase began.  When the switches read so at the first re-check of the high phase and
  again at the first re-check of the low phase, the whole pass returns after two quanta:
  its only register writes are the latch high, the latch low at the abort and the latch
  low that opens the low phase.
\<close>

theorem software_abort_leaves_low:
  "(software_cycle ft s = Some s' \<longrightarrow> \<not> LATB6 s') \<and>
   (ins t = x # y # xs \<and> (\<not> RC6 x \<or> \<not> RC3 y) \<and> i < d \<and> i AND 0x3FF = 0 \<longrightarrow>
      high_loop i d t = Some (write_LATB6 False ((delay_us 10 t)\<lparr>ins := xs\<rparr>)) \<and>
      low_loop ft i d t = Some ((delay_us 10 t)\<lparr>ins := xs\<rparr>)) \<and>
   (ins t = x # y # x' # y' # xs' \<and> (\<not> RC6 x \<or> \<not> RC3 y) \<and> (\<not> RC6 x' \<or> \<not> RC3 y') \<and>
    240 \<le> half_period t \<longrightarrow>
      software_cycle ft t =
        Some (t\<lparr>ins := xs', LATB6 := False,
                trace := trace t @
                  [Pin (RB6PPS t) (NCO1CON t) True, Delay 10,
                   Pin (RB6PPS t) (NCO1CON t) False, Pin (RB6PPS t) (NCO1CON t) False,
                   Delay 10]\<rparr>))"
  using software_cycle_low [of ft s s'] recheck_abort [of t x y xs i d ft]
    software_cycle_abort [of t x y x' y' xs' ft]
  by blast

text \<open>A half period of 480 cycles (two quanta per phase) with the halt switch asserted
  throughout: the cycle returns after two quanta with the latch low, and the high phase
  ends after one quantum with the latch written low.\<close>

theorem software_abort_leaves_low_witness:
  "software_cycle demo_table
     ((reset_state [smp False True True 0, smp False True True 0,
         smp False True True 0, smp False True True 0])
        \<lparr>software_mode := 1, half_period := 480, running := 1\<rparr>) =
   Some ((reset_state [])
           \<lparr>software_mode := 1, half_period := 480, running := 1,
             trace := [Pin 0 0 True, Delay 10, Pin 0 0 False, Pin 0 0 False, Delay 10]\<rparr>) \<and>
   high_loop 0 2
     ((reset_state [smp False True True 0, smp False True True 0,
         smp False True True 0, smp False True True 0])
        \<lparr>software_mode := 1, half_period := 480, running := 1, LATB6 := True\<rparr>) =
   Some ((reset_state [smp False True True 0, smp False True True 0])
           \<lparr>software_mode := 1, half_period := 480, running := 1, LATB6 := False,
             trace := [Delay 10, Pin 0 0 False]\<rparr>)"
proof -
  let ?h = "smp False True True 0"
  let ?t = "(reset_state [?h, ?h, ?h, ?h])
              \<lparr>software_mode := 1, half_period := 480, running := 1\<rparr>"
  let ?u = "?t\<lparr>LATB6 := True\<rparr>"
  have 1: "ins ?t = ?h # ?h # ?h # ?h # [] \<and> (\<not> RC6 ?h \<or> \<not> RC3 ?h) \<and>
      (\<not> RC6 ?h \<or> \<not> RC3 ?h) \<and> 240 \<le> half_period ?t"
    by (simp add: reset_state_def smp_def)
  have 2: "ins ?u = ?h # ?h # [?h, ?h] \<and> (\<not> RC6 ?h \<or> \<not> RC3 ?h) \<and>
      (0::uint32_t) < 2 \<and> (0::uint32_t) AND 0x3FF = 0"
    by (simp add: reset_state_def smp_def)
  from software_abort_leaves_low [of demo_table ?t _ ?t ?h ?h _ _ _ ?h ?h "[]"] 1
  have "software_cycle demo_table ?t =
      Some (?t\<lparr>ins := [], LATB6 := False,
                trace := trace ?t @
                  [Pin (RB6PPS ?t) (NCO1CON ?t) True, Delay 10,
                   Pin (RB6PPS ?t) (NCO1CON ?t) False, Pin (RB6PPS ?t) (NCO1CON ?t) False,
                   Delay 10]\<rparr>)"
    by blast
  then have a: "software_cycle demo_table ?t =
      Some ((reset_state [])
           \<lparr>software_mode := 1, half_period := 480, running := 1,
             trace := [Pin 0 0 True, Delay 10, Pin 0 0 False, Pin 0 0 False, Delay 10]\<rparr>)"
    by (simp add: reset_state_def)
  from software_abort_leaves_low [of demo_table _ _ ?u ?h ?h "[?h, ?h]" 0 2] 2
  have "high_loop 0 2 ?u = Some (write_LATB6 False ((delay_us 10 ?u)\<lparr>ins := [?h, ?h]\<rparr>))"
    by blast
  then have b: "high_loop 0 2 ?u =
      Some ((reset_state [?h, ?h])
           \<lparr>software_mode := 1, half_period := 480, running := 1, LATB6 := False,
             trace := [Delay 10, Pin 0 0 False]\<rparr>)"
    by (simp add: reset_state_def io_defs)
  from a b show ?thesis by blast
qed

subsection \<open>C8: halt before step before running\<close>

text \<open>
  C8.  A pass first reads the halt switch and the step switch.  If the halt switch is
  asserted the halt branch is taken whatever the step switch reads, so with both
  asserted the machine is halted, not stepping: the pass reads no button sample and does
  not switch the LED on.  Only with the halt switch deasserted does an asserted step
  switch select the step branch, and only with both deasserted does the pass run a
  generator.
\<close>

theorem halt_priority:
  assumes "ins s = x # y # xs"
  shows "iteration ft s =
           (if \<not> RC6 x then Some (halt_mode (s\<lparr>ins := xs\<rparr>))
            else if \<not> RC3 y then step_mode (s\<lparr>ins := xs\<rparr>)
            else dispatch ft 0 (s\<lparr>ins := xs\<rparr>)) \<and>
         halted (halt_mode (s\<lparr>ins := xs\<rparr>)) \<noteq> 0 \<and>
         ins (halt_mode (s\<lparr>ins := xs\<rparr>)) = xs \<and>
         LATC5 (halt_mode (s\<lparr>ins := xs\<rparr>)) = (halted s \<noteq> 0 \<and> LATC5 s)"
  using assms
  by (auto simp: iteration_Cons dispatch_def mode_bits_def halt_mode_def io_defs nco_defs)

text \<open>Both switches asserted, and a pressed button waiting: the pass halts and leaves the
  button sample unread.\<close>

theorem halt_priority_witness:
  "iteration demo_table
     ((reset_state [smp False True False 0, smp False True False 0, smp True False True 0])
        \<lparr>running := 1\<rparr>) =
   Some (halt_mode ((reset_state [smp True False True 0])\<lparr>running := 1\<rparr>)) \<and>
   halted (halt_mode ((reset_state [smp True False True 0])\<lparr>running := 1\<rparr>)) = 1 \<and>
   ins (halt_mode ((reset_state [smp True False True 0])\<lparr>running := 1\<rparr>)) =
     [smp True False True 0]"
  using halt_priority
          [of "(reset_state [smp False True False 0, smp False True False 0,
                  smp True False True 0])\<lparr>running := 1\<rparr>"
              "smp False True False 0" "smp False True False 0" "[smp True False True 0]"
              demo_table]
  by (simp add: reset_state_def smp_def halt_mode_def io_defs nco_defs)

subsection \<open>C9: \<open>nco_stop\<close> keeps the pin routed to the NCO\<close>

lemma step_mode_frame:
  "step_mode s = Some s' \<Longrightarrow> halted s \<noteq> 0 \<Longrightarrow> running s = 0 \<Longrightarrow>
     RB6PPS s' = RB6PPS s \<and> NCO1CON s' = NCO1CON s \<and> halted s' = halted s \<and> running s' = 0"
  apply (clarsimp simp: step_mode_def Let_def split: Option.bind_splits if_splits)
   apply (auto elim!: button_pressedE dest!: wait_button_release_Some)
         apply (auto simp: io_defs output_step_pulse_def)
  done

text \<open>
  C9.  \<open>nco_stop\<close> writes NCO1CON and LATB6 and nothing else; RB6PPS keeps its value.
  When a run is in NCO mode and finds the halt switch asserted, the pass is the halt
  branch with \<open>nco_stop\<close>, and it ends with RB6PPS still 0x1D, the NCO selected as the
  source of the pin.  A step pass that starts halted (\<open>halted\<close> set and \<open>running\<close>
  clear, so the guard \<open>running || !halted\<close> is false) calls no \<open>nco_disconnect\<close>:
  RB6PPS keeps its value through the pass, also when the pass writes the latch for a
  pulse, and the machine stays halted.
\<close>

theorem nco_stop_keeps_routing:
  assumes "trace s0 = []" and "main_upto ft n s0 = Some s"
    and "halted s = 0" and "software_mode s = 0"
    and "ins s = x # y # xs" and "\<not> RC6 x"
  shows "nco_stop t =
           t\<lparr>NCO1CON := 0, LATB6 := False,
             trace := trace t @ [Pin (RB6PPS t) 0 (LATB6 t), Pin (RB6PPS t) 0 False]\<rparr> \<and>
         main_upto ft (Suc n) s0 = Some (halt_mode (s\<lparr>ins := xs\<rparr>)) \<and>
         halt_mode (s\<lparr>ins := xs\<rparr>) =
           delay_ms 50 ((nco_stop (s\<lparr>ins := xs\<rparr>))\<lparr>LATC5 := False, halted := 1, running := 0\<rparr>) \<and>
         RB6PPS (halt_mode (s\<lparr>ins := xs\<rparr>)) = 0x1D \<and>
         (halted u \<noteq> 0 \<and> running u = 0 \<and> step_mode u = Some u' \<longrightarrow>
            RB6PPS u' = RB6PPS u \<and> halted u' \<noteq> 0 \<and> running u' = 0)"
proof -
  from assms(1,2) have inv: "loop_inv s" by (rule main_upto_inv [rotated])
  have it: "iteration ft s = Some (halt_mode (s\<lparr>ins := xs\<rparr>))"
    using assms(5,6) by (simp add: iteration_Cons dispatch_def mode_bits_def)
  with assms(2) have 1: "main_upto ft (Suc n) s0 = Some (halt_mode (s\<lparr>ins := xs\<rparr>))"
    by (simp add: main_upto_Suc)
  have 2: "halt_mode (s\<lparr>ins := xs\<rparr>) =
      delay_ms 50 ((nco_stop (s\<lparr>ins := xs\<rparr>))\<lparr>LATC5 := False, halted := 1, running := 0\<rparr>)"
    using assms(3,4) by (simp add: halt_mode_def)
  from inv assms(3,4) have "RB6PPS s = 0x1D" by (simp add: loop_inv_def)
  then have 3: "RB6PPS (halt_mode (s\<lparr>ins := xs\<rparr>)) = 0x1D"
    by (simp add: 2 io_defs nco_stop_def)
  have 4: "nco_stop t =
           t\<lparr>NCO1CON := 0, LATB6 := False,
             trace := trace t @ [Pin (RB6PPS t) 0 (LATB6 t), Pin (RB6PPS t) 0 False]\<rparr>"
    by (simp add: nco_stop_def io_defs)
  have 5: "halted u \<noteq> 0 \<and> running u = 0 \<and> step_mode u = Some u' \<longrightarrow>
            RB6PPS u' = RB6PPS u \<and> halted u' \<noteq> 0 \<and> running u' = 0"
    using step_mode_frame [of u u'] by auto
  from 1 2 3 4 5 show ?thesis by blast
qed

text \<open>A run in NCO mode is halted, then a step pass pulses the latch: RB6PPS is 0x1D
  throughout, also at the instant the latch is written high.\<close>

theorem nco_stop_keeps_routing_witness:
  "\<exists>u u'. main_upto demo_table 1
            (reset_state [smp True True True 100, smp False True True 0,
               smp False True True 0, smp True False False 0, smp True False False 0,
               smp True True False 0]) = Some u \<and>
          RB6PPS u = 0x1D \<and> step_mode u = Some u' \<and> RB6PPS u' = 0x1D \<and>
          Pin 0x1D 0 True \<in> set (trace u')"
proof -
  let ?init = "reset_state [smp True True True 100, smp False True True 0,
               smp False True True 0, smp True False False 0, smp True False False 0,
               smp True True False 0]"
  let ?s = "the (main_upto demo_table 0 ?init)"
  let ?xs = "[smp True False False 0, smp True False False 0, smp True True False 0]"
  let ?u = "halt_mode (?s\<lparr>ins := ?xs\<rparr>)"
  have 0: "trace ?init = []" by (simp add: reset_state_def)
  have "main_upto demo_table 0 ?init \<noteq> None" by code_simp
  then have 1: "main_upto demo_table 0 ?init = Some ?s" by simp
  have 2: "halted ?s = 0" "software_mode ?s = 0" by code_simp+
  have 3: "ins ?s = smp False True True 0 # smp False True True 0 # ?xs" by code_simp
  have 4: "\<not> RC6 (smp False True True 0)" by (simp add: smp_def)
  have "step_mode ?u \<noteq> None" by code_simp
  then have 5: "step_mode ?u = Some (the (step_mode ?u))" by simp
  have 6: "halted ?u \<noteq> 0" "running ?u = 0" by code_simp+
  have 7: "Pin 0x1D 0 True \<in> set (trace (the (step_mode ?u)))" by code_simp
  from nco_stop_keeps_routing [OF 0 1 2 3 4, of ?u ?u "the (step_mode ?u)"] 5 6 7
  show ?thesis unfolding One_nat_def by auto
qed

end
